theory Spec2Isabelle
  imports Main "HOL-Library.AList" "HOL-Library.Char_ord" "HOL-Library.List_Lexorder"
begin

section \<open>Python values, exceptions and dictionaries\<close>

text \<open>
  The values that travel through the connector: column values of result rows, option
  values, and the arguments of exception objects. An exception object that is itself
  passed as an argument (\<^verbatim>\<open>SphinxQLDriverException(e)\<close>) is \<open>PExn\<close>.
\<close>

datatype pyval = PNone | PBool bool | PInt int | PStr string | PExn string "pyval list"

text \<open>
  An exception caught by the \<^verbatim>\<open>except Exception as e\<close> clause of \<^verbatim>\<open>execute\<close>: the
  name of its class (\<^verbatim>\<open>type(e).__name__\<close>) and its \<^verbatim>\<open>args\<close>. These are the exceptions
  of the underlying library and the \<^verbatim>\<open>KeyError\<close> of a row lookup.
\<close>

datatype exn = Exn (type_name: string) (args: "pyval list")

text \<open>The exceptions that leave the connector and reach its caller.\<close>

datatype error =
    ImproperlyConfigured string
  | SphinxQLDriverException pyval
  | ImportError string
  | IndexError string
  | ValueError string
  | AttributeError string

text \<open>
  A \<^verbatim>\<open>dict\<close> is an association list with distinct keys, in insertion order;
  \<^verbatim>\<open>d[k] = v\<close> is \<^const>\<open>AList.update\<close>, \<^verbatim>\<open>d.get(k)\<close> is \<^const>\<open>map_of\<close>.
\<close>

type_synonym py_dict = "(string \<times> pyval) list"

type_synonym row = "(string \<times> pyval) list"

definition setdefault :: "string \<Rightarrow> pyval \<Rightarrow> py_dict \<Rightarrow> py_dict" where
  "setdefault k v d = (case map_of d k of None \<Rightarrow> d @ [(k, v)] | Some _ \<Rightarrow> d)"

definition dict_update :: "('k \<times> 'v) list \<Rightarrow> ('k \<times> 'v) list \<Rightarrow> ('k \<times> 'v) list" where
  \<comment> \<open>\<^verbatim>\<open>d.update(other)\<close>, and \<^verbatim>\<open>dict(pairs)\<close> when \<open>d\<close> is empty: later pairs overwrite\<close>
  "dict_update d other = foldl (\<lambda>acc (k, v). AList.update k v acc) d other"

text \<open>
  The keys of the dicts built from result rows are values, and Python compares them
  with \<^verbatim>\<open>==\<close>: \<^verbatim>\<open>True\<close> and \<^verbatim>\<open>1\<close> are one key, as are \<^verbatim>\<open>False\<close> and \<^verbatim>\<open>0\<close>; values of
  different kinds are otherwise different keys. (An exception object would be compared
  by identity; the rows of which anything is proved below name none, see
  \<open>well_shaped\<close>.) \<^verbatim>\<open>d[k] = v\<close> on a key that is already present keeps the key object
  that is there and replaces its value.
\<close>

fun py_key :: "pyval \<Rightarrow> pyval" where
  "py_key (PBool b) = PInt (if b then 1 else 0)"
| "py_key v = v"

definition py_eq :: "pyval \<Rightarrow> pyval \<Rightarrow> bool" where
  "py_eq a b \<longleftrightarrow> py_key a = py_key b"

fun dict_setitem :: "pyval \<Rightarrow> 'v \<Rightarrow> (pyval \<times> 'v) list \<Rightarrow> (pyval \<times> 'v) list" where
  "dict_setitem k v [] = [(k, v)]"
| "dict_setitem k v (p # d) =
     (if py_eq (fst p) k then (fst p, v) # d else p # dict_setitem k v d)"

definition dict_of_pairs :: "(pyval \<times> 'v) list \<Rightarrow> (pyval \<times> 'v) list" where
  \<comment> \<open>\<^verbatim>\<open>dict(pairs)\<close>\<close>
  "dict_of_pairs ps = foldl (\<lambda>d (k, v). dict_setitem k v d) [] ps"

definition dict_get :: "(pyval \<times> 'v) list \<Rightarrow> pyval \<Rightarrow> 'v option" where
  \<comment> \<open>\<^verbatim>\<open>d.get(k)\<close>; on a list of pairs, the value paired with the first key equal to \<open>k\<close>\<close>
  "dict_get d k = map_option snd (find (\<lambda>p. py_eq (fst p) k) d)"

section \<open>sql_engine: the driver registry\<close>

datatype engine_class =
  OurSqlEngine | PyMySqlEngine | MySqlDbEngine | CyMySqlEngine | UMySqlEngine

type_synonym registry = "(string \<times> engine_class) list"

definition register_engine :: "string \<Rightarrow> engine_class \<Rightarrow> registry \<Rightarrow> registry" where
  "register_engine name cls reg = AList.update name cls reg"

definition get_engine_class :: "registry \<Rightarrow> string \<Rightarrow> engine_class option" where
  "get_engine_class reg name = map_of reg name"

definition list_engine_names :: "registry \<Rightarrow> string list" where
  "list_engine_names reg = sort (map fst reg)"

text \<open>
  The registry after the module has been imported. The decorators run in the order of
  the class definitions; on \<^verbatim>\<open>PyMySqlEngine\<close> the inner decorator (\<^verbatim>\<open>'mysqldb'\<close>) runs
  before the outer one (\<^verbatim>\<open>'pymysql'\<close>).
\<close>

definition driver_registry :: registry where
  "driver_registry =
     register_engine ''umysqldb'' UMySqlEngine
    (register_engine ''cymysql'' CyMySqlEngine
    (register_engine ''mysqldb1'' MySqlDbEngine
    (register_engine ''pymysql'' PyMySqlEngine
    (register_engine ''mysqldb'' PyMySqlEngine
    (register_engine ''oursql'' OurSqlEngine [])))))"

text \<open>A registry built from nothing by a sequence of registrations, first to last.\<close>

definition registered :: "(string \<times> engine_class) list \<Rightarrow> registry" where
  "registered regs = foldl (\<lambda>reg (name, cls). register_engine name cls reg) [] regs"

section \<open>sql_engine: the engines\<close>

record engine =
  engine_cls :: engine_class
  options :: py_dict

definition AbstractSqlEngine_init :: "py_dict \<Rightarrow> py_dict" where
  "AbstractSqlEngine_init opts =
     setdefault ''cursorclass'' (PStr ''Cursor'')
    (setdefault ''sql_mode'' PNone
    (setdefault ''charset'' (PStr ''utf8'')
    (setdefault ''use_unicode'' (PBool True)
    (setdefault ''read_default_file'' PNone
    (setdefault ''connect_timeout'' (PInt 10)
    (setdefault ''unix_socket'' PNone
    (setdefault ''port'' (PInt 3306)
    (setdefault ''db'' PNone
    (setdefault ''password'' PNone
    (setdefault ''user'' PNone
    (setdefault ''host'' (PStr ''localhost'') opts)))))))))))"

text \<open>The modules a class imports in its constructor.\<close>

fun imports_of :: "engine_class \<Rightarrow> string list" where
  "imports_of OurSqlEngine = [''oursql'']"
| "imports_of PyMySqlEngine = [''pymysql'', ''pymysql.cursors'']"
| "imports_of MySqlDbEngine = [''MySQLdb'', ''MySQLdb.cursors'']"
| "imports_of CyMySqlEngine = [''cymysql'', ''cymysql.cursors'']"
| "imports_of UMySqlEngine = [''umysqldb'', ''umysqldb.cursors'']"

text \<open>
  \<^verbatim>\<open>engine_class(connection_options)\<close>: the defaults are filled in, then the library is
  imported; \<open>installed\<close> lists the modules that can be imported, and the first one
  missing raises \<^verbatim>\<open>ImportError\<close>.
\<close>

definition engine_init :: "string list \<Rightarrow> engine_class \<Rightarrow> py_dict \<Rightarrow> error + engine" where
  "engine_init installed cls opts =
     (case filter (\<lambda>m. m \<notin> set installed) (imports_of cls) of
        [] \<Rightarrow> Inr \<lparr>engine_cls = cls, options = AbstractSqlEngine_init opts\<rparr>
      | m # _ \<Rightarrow> Inl (ImportError m))"

text \<open>
  The statements sent to searchd are kept in a log, oldest first. The underlying
  library and the daemon behind it are a parameter: the answer to a statement, given
  the statements sent before and whether it was sent with \<^verbatim>\<open>plain_query=True\<close>, is
  an exception or the rows the cursor then yields (\<^verbatim>\<open>cursor.execute\<close> and the reading
  of the cursor are one step, both being inside the same \<^verbatim>\<open>try\<close>).
\<close>

type_synonym server = "string list \<Rightarrow> bool \<Rightarrow> string \<Rightarrow> exn + row list"

definition plain_query :: "engine \<Rightarrow> bool" where
  \<comment> \<open>\<^verbatim>\<open>OurSqlEngine.execute\<close> overrides \<^verbatim>\<open>AbstractSqlEngine.execute\<close>\<close>
  "plain_query eng = (engine_cls eng = OurSqlEngine)"

definition engine_execute ::
  "engine \<Rightarrow> server \<Rightarrow> string list \<Rightarrow> string \<Rightarrow> (exn + row list) \<times> string list" where
  "engine_execute eng srv lg query = (srv lg (plain_query eng) query, lg @ [query])"

definition AbstractSqlEngine_raise_for_exception :: "exn \<Rightarrow> error + unit" where
  "AbstractSqlEngine_raise_for_exception e =
     Inl (SphinxQLDriverException (PExn (type_name e) (args e)))"

text \<open>
  \<^verbatim>\<open>errno, msg, extra = e\<close> unpacks the exception's arguments (Python 2); any other
  number of arguments is a \<^verbatim>\<open>ValueError\<close>. Falling off the end returns \<^verbatim>\<open>None\<close>.
\<close>

definition OurSqlEngine_raise_for_exception :: "exn \<Rightarrow> error + unit" where
  "OurSqlEngine_raise_for_exception e =
     (if type_name e = ''ProgrammingError'' then
        (case args e of
           [errno, msg, extra] \<Rightarrow>
             if errno \<noteq> PNone then Inl (SphinxQLDriverException msg) else Inr ()
         | _ \<Rightarrow> Inl (ValueError ''wrong number of values to unpack''))
      else Inr ())"

definition raise_for_exception :: "engine \<Rightarrow> exn \<Rightarrow> error + unit" where
  "raise_for_exception eng e =
     (case engine_cls eng of
        OurSqlEngine \<Rightarrow> OurSqlEngine_raise_for_exception e
      | _ \<Rightarrow> AbstractSqlEngine_raise_for_exception e)"

section \<open>connector: the client and its pool\<close>

record config =
  SEARCHD_CONNECTION :: py_dict
  SQL_ENGINE :: string
  POOL_SIZE :: "int option"
  WITH_META :: "bool option"
  WITH_STATUS :: "bool option"

definition pool_size :: "config \<Rightarrow> int" where
  \<comment> \<open>\<^verbatim>\<open>getattr(self.config, 'POOL_SIZE', 10)\<close>\<close>
  "pool_size cfg = (case POOL_SIZE cfg of None \<Rightarrow> 10 | Some n \<Rightarrow> n)"

definition with_meta :: "config \<Rightarrow> bool" where
  "with_meta cfg = (case WITH_META cfg of None \<Rightarrow> False | Some b \<Rightarrow> b)"

definition with_status :: "config \<Rightarrow> bool" where
  "with_status cfg = (case WITH_STATUS cfg of None \<Rightarrow> False | Some b \<Rightarrow> b)"

text \<open>
  A connection is the number of \<^verbatim>\<open>engine.get_connection()\<close> calls made before the one
  that opened it; \<open>created\<close> counts these calls. The deque \<open>connections_pool\<close> has its
  left end at the head of the list. \<open>local_conn\<close> is the attribute \<^verbatim>\<open>conn\<close> of the
  thread-local object, per thread: absent, \<^verbatim>\<open>None\<close>, or a connection.
\<close>

type_synonym conn = nat

type_synonym thread = nat

record connector =
  config :: config
  connection_options :: py_dict
  engine :: "engine option"
  connections_pool :: "conn list"
  local_conn :: "(thread \<times> conn option) list"
  created :: nat

text \<open>
  \<^verbatim>\<open>SphinxConnector.__init__\<close>. Only \<^verbatim>\<open>ImportError\<close> is caught; the two log messages
  are not modelled. The engine's constructor fills the defaults into the very dict the
  client keeps as \<^verbatim>\<open>connection_options\<close>, and does so before it imports its library.
\<close>

definition SphinxConnector_init :: "string list \<Rightarrow> config \<Rightarrow> error + connector" where
  "SphinxConnector_init installed cfg =
     (let connection_options =
            dict_update [(''host'', PStr ''127.0.0.1''), (''port'', PInt 9306)]
              (SEARCHD_CONNECTION cfg);
          fresh = \<lparr>config = cfg, connection_options = connection_options, engine = None,
                   connections_pool = [], local_conn = [], created = 0\<rparr>
      in case get_engine_class driver_registry (SQL_ENGINE cfg) of
           None \<Rightarrow> Inr fresh
         | Some engine_class \<Rightarrow>
             (case engine_init installed engine_class connection_options of
                Inr eng \<Rightarrow>
                  Inr (fresh\<lparr>connection_options := options eng, engine := Some eng\<rparr>)
              | Inl (ImportError m) \<Rightarrow>
                  Inr (fresh\<lparr>connection_options := AbstractSqlEngine_init connection_options\<rparr>)
              | Inl err \<Rightarrow> Inl err))"

definition close_connections :: "thread \<Rightarrow> connector \<Rightarrow> connector" where
  "close_connections t s =
     s\<lparr>local_conn := AList.delete t (local_conn s), connections_pool := []\<rparr>"

text \<open>
  \<^verbatim>\<open>for i in range(n): pool.append(self.engine.get_connection())\<close>, each connect
  returning a connection. The loop with connects that may raise is \<open>fill_pool_connect\<close>
  below; it is this one when none does (lemma \<open>fill_pool_connect_ok\<close>).
\<close>

primrec fill_pool :: "nat \<Rightarrow> connector \<Rightarrow> connector" where
  "fill_pool 0 s = s"
| "fill_pool (Suc n) s =
     fill_pool n (s\<lparr>connections_pool := connections_pool s @ [created s],
                    created := Suc (created s)\<rparr>)"

definition init_connection_pool :: "connector \<Rightarrow> error + connector" where
  "init_connection_pool s =
     (case engine s of
        None \<Rightarrow> Inl (ImproperlyConfigured
                 ''One of Sql libraries has to be installed to work with searchd'')
      | Some eng \<Rightarrow>
          Inr (if connections_pool s = [] then fill_pool (nat (pool_size (config s))) s
               else s))"

text \<open>
  \<^verbatim>\<open>get_connection\<close> is a generator under \<^verbatim>\<open>@contextmanager\<close>. Entering the \<^verbatim>\<open>with\<close>
  block runs it up to the \<^verbatim>\<open>yield\<close>, under the lock; leaving the block normally runs
  the rest, under the lock again. When the block is left by an exception, the exception
  is thrown into the generator at the \<^verbatim>\<open>yield\<close>, which is not inside any \<^verbatim>\<open>try\<close>, so
  the rest of the generator does not run.
\<close>

definition get_connection_enter :: "thread \<Rightarrow> connector \<Rightarrow> (error + conn) \<times> connector" where
  "get_connection_enter t s =
     (case init_connection_pool s of
        Inl err \<Rightarrow> (Inl err, s)
      | Inr s1 \<Rightarrow>
          (case connections_pool s1 of
             [] \<Rightarrow> (Inl (IndexError ''pop from an empty deque''), s1)
           | _ # _ \<Rightarrow>
               (let local_connection = last (connections_pool s1)
                in (Inr local_connection,
                    s1\<lparr>connections_pool := butlast (connections_pool s1),
                       local_conn := AList.update t (Some local_connection) (local_conn s1)\<rparr>))))"

definition get_connection_exit :: "thread \<Rightarrow> conn \<Rightarrow> connector \<Rightarrow> connector" where
  "get_connection_exit t local_connection s =
     s\<lparr>local_conn := AList.update t None (local_conn s),
       connections_pool := local_connection # connections_pool s\<rparr>"

section \<open>connector: running queries\<close>

record subresult =
  items :: "row list"
  meta :: "(pyval \<times> pyval) list option"
  status :: "(pyval \<times> pyval) list option"

datatype result = RowSeq "row list" | AliasMap "(string \<times> subresult) list"

datatype query = Single string | Batch "(string \<times> string) list"

definition getitem :: "row \<Rightarrow> string \<Rightarrow> exn + pyval" where
  "getitem x k = (case map_of x k of None \<Rightarrow> Inl (Exn ''KeyError'' [PStr k]) | Some v \<Rightarrow> Inr v)"

text \<open>\<^verbatim>\<open>[(x[kc], x[vc]) for x in raw_result]\<close>\<close>

fun pairs_of :: "string \<Rightarrow> string \<Rightarrow> row list \<Rightarrow> exn + (pyval \<times> pyval) list" where
  "pairs_of kc vc [] = Inr []"
| "pairs_of kc vc (x # xs) =
     (case getitem x kc of
        Inl e \<Rightarrow> Inl e
      | Inr k \<Rightarrow>
          (case getitem x vc of
             Inl e \<Rightarrow> Inl e
           | Inr v \<Rightarrow>
               (case pairs_of kc vc xs of
                  Inl e \<Rightarrow> Inl e
                | Inr ps \<Rightarrow> Inr ((k, v) # ps))))"

definition normalize_meta :: "row list \<Rightarrow> exn + (pyval \<times> pyval) list" where
  "normalize_meta raw_result =
     (case pairs_of ''Variable_name'' ''Value'' raw_result of
        Inl e \<Rightarrow> Inl e
      | Inr ps \<Rightarrow> Inr (dict_of_pairs ps))"

definition normalize_status :: "row list \<Rightarrow> exn + (pyval \<times> pyval) list" where
  "normalize_status raw_result =
     (case pairs_of ''Counter'' ''Value'' raw_result of
        Inl e \<Rightarrow> Inl e
      | Inr ps \<Rightarrow> Inr (dict_of_pairs ps))"

text \<open>The body of the loop of \<^verbatim>\<open>_execute_batch\<close>, up to the store under the alias.\<close>

definition execute_batch_item ::
  "engine \<Rightarrow> config \<Rightarrow> server \<Rightarrow> string list \<Rightarrow> string \<Rightarrow> (exn + subresult) \<times> string list" where
  "execute_batch_item eng cfg srv lg sub_ql =
     (case engine_execute eng srv lg sub_ql of
        (Inl e, lg1) \<Rightarrow> (Inl e, lg1)
      | (Inr rows, lg1) \<Rightarrow>
          (let sub1 = \<lparr>items = rows, meta = None, status = None\<rparr>;
               after_meta =
                 (if with_meta cfg then
                    (case engine_execute eng srv lg1 ''SHOW META'' of
                       (Inl e, lg2) \<Rightarrow> (Inl e, lg2)
                     | (Inr mrows, lg2) \<Rightarrow>
                         (case normalize_meta mrows of
                            Inl e \<Rightarrow> (Inl e, lg2)
                          | Inr m \<Rightarrow> (Inr (sub1\<lparr>meta := Some m\<rparr>), lg2)))
                  else (Inr sub1, lg1))
           in case after_meta of
                (Inl e, lg2) \<Rightarrow> (Inl e, lg2)
              | (Inr sub2, lg2) \<Rightarrow>
                  (if with_status cfg then
                     (case engine_execute eng srv lg2 ''SHOW STATUS'' of
                        (Inl e, lg3) \<Rightarrow> (Inl e, lg3)
                      | (Inr srows, lg3) \<Rightarrow>
                          (case normalize_status srows of
                             Inl e \<Rightarrow> (Inl e, lg3)
                           | Inr m \<Rightarrow> (Inr (sub2\<lparr>status := Some m\<rparr>), lg3)))
                   else (Inr sub2, lg2))))"

fun execute_batch_loop ::
  "engine \<Rightarrow> config \<Rightarrow> server \<Rightarrow> (string \<times> subresult) list \<Rightarrow> string list \<Rightarrow>
   (string \<times> string) list \<Rightarrow> (exn + (string \<times> subresult) list) \<times> string list" where
  "execute_batch_loop eng cfg srv total_results lg [] = (Inr total_results, lg)"
| "execute_batch_loop eng cfg srv total_results lg ((sub_ql, sub_alias) # rest) =
     (case execute_batch_item eng cfg srv lg sub_ql of
        (Inl e, lg1) \<Rightarrow> (Inl e, lg1)
      | (Inr sub, lg1) \<Rightarrow>
          execute_batch_loop eng cfg srv (AList.update sub_alias sub total_results) lg1 rest)"

definition execute_batch ::
  "engine \<Rightarrow> config \<Rightarrow> server \<Rightarrow> string list \<Rightarrow> (string \<times> string) list \<Rightarrow>
   (exn + (string \<times> subresult) list) \<times> string list" where
  "execute_batch eng cfg srv lg sxql_batch = execute_batch_loop eng cfg srv [] lg sxql_batch"

definition execute_query ::
  "engine \<Rightarrow> server \<Rightarrow> string list \<Rightarrow> string \<Rightarrow> (exn + row list) \<times> string list" where
  "execute_query eng srv lg sxql_query = engine_execute eng srv lg sxql_query"

text \<open>
  \<^verbatim>\<open>execute\<close>, called by thread \<open>t\<close>. Creating and closing the cursor are taken not to
  raise. The three ways out of the \<^verbatim>\<open>try\<close> statement: the body returns; the body
  raises and \<^verbatim>\<open>raise_for_exception\<close> raises, which leaves the \<^verbatim>\<open>with\<close> block by an
  exception; the body raises and \<^verbatim>\<open>raise_for_exception\<close> returns, which leaves the
  block normally with \<^verbatim>\<open>total_results\<close> still the empty dict.
\<close>

definition execute ::
  "server \<Rightarrow> thread \<Rightarrow> query \<Rightarrow> connector \<times> string list \<Rightarrow>
   (error + result) \<times> connector \<times> string list" where
  "execute srv t sxql_query st =
     (case st of (s, lg) \<Rightarrow>
      (case get_connection_enter t s of
         (Inl err, s1) \<Rightarrow> (Inl err, s1, lg)
       | (Inr connection, s1) \<Rightarrow>
           (case engine s1 of
              None \<Rightarrow> (Inl (AttributeError ''get_cursor_class''), s1, lg)
            | Some eng \<Rightarrow>
                (let body =
                       (case sxql_query of
                          Batch b \<Rightarrow>
                            (case execute_batch eng (config s1) srv lg b of
                               (Inl e, lg1) \<Rightarrow> (Inl e, lg1)
                             | (Inr d, lg1) \<Rightarrow> (Inr (AliasMap d), lg1))
                        | Single q \<Rightarrow>
                            (case execute_query eng srv lg q of
                               (Inl e, lg1) \<Rightarrow> (Inl e, lg1)
                             | (Inr rows, lg1) \<Rightarrow> (Inr (RowSeq rows), lg1)))
                 in case body of
                      (Inr total_results, lg1) \<Rightarrow>
                        (Inr total_results, get_connection_exit t connection s1, lg1)
                    | (Inl e, lg1) \<Rightarrow>
                        (case raise_for_exception eng e of
                           Inl err \<Rightarrow> (Inl err, s1, lg1)
                         | Inr _ \<Rightarrow>
                             (Inr (AliasMap []), get_connection_exit t connection s1, lg1))))))"

section \<open>Acquisitions and releases by several threads\<close>

text \<open>
  Above, \<^verbatim>\<open>engine.get_connection()\<close> returns a connection. The connect of the underlying
  library may also raise, and \<^verbatim>\<open>_init_connection_pool\<close> then stops in the middle of its
  loop. For the pool itself this is a parameter: for each call of
  \<^verbatim>\<open>engine.get_connection()\<close>, numbered from 0 over the life of the client, whether it
  raises, and what. The exception of a connect leaves \<^verbatim>\<open>get_connection\<close> as it is.
\<close>

type_synonym connects = "nat \<Rightarrow> exn option"

datatype raised = Own error | Driver exn

text \<open>
  \<^verbatim>\<open>for i in range(n): pool.append(self.engine.get_connection())\<close>, from call number
  \<open>k\<close> on; the result holds the exception that ended the loop, if any, and the number
  of the next call.
\<close>

fun fill_pool_connect ::
  "connects \<Rightarrow> nat \<Rightarrow> nat \<Rightarrow> connector \<Rightarrow> exn option \<times> nat \<times> connector" where
  "fill_pool_connect cn 0 k s = (None, k, s)"
| "fill_pool_connect cn (Suc n) k s =
     (case cn k of
        Some e \<Rightarrow> (Some e, Suc k, s)
      | None \<Rightarrow>
          fill_pool_connect cn n (Suc k)
            (s\<lparr>connections_pool := connections_pool s @ [created s],
               created := Suc (created s)\<rparr>))"

definition init_connection_pool_connect ::
  "connects \<Rightarrow> nat \<Rightarrow> connector \<Rightarrow> raised option \<times> nat \<times> connector" where
  "init_connection_pool_connect cn k s =
     (case engine s of
        None \<Rightarrow> (Some (Own (ImproperlyConfigured
                   ''One of Sql libraries has to be installed to work with searchd'')), k, s)
      | Some eng \<Rightarrow>
          (if connections_pool s = [] then
             (case fill_pool_connect cn (nat (pool_size (config s))) k s of
                (Some e, k1, s1) \<Rightarrow> (Some (Driver e), k1, s1)
              | (None, k1, s1) \<Rightarrow> (None, k1, s1))
           else (None, k, s)))"

definition get_connection_enter_connect ::
  "connects \<Rightarrow> nat \<Rightarrow> thread \<Rightarrow> connector \<Rightarrow> (raised + conn) \<times> nat \<times> connector" where
  "get_connection_enter_connect cn k t s =
     (case init_connection_pool_connect cn k s of
        (Some r, k1, s1) \<Rightarrow> (Inl r, k1, s1)
      | (None, k1, s1) \<Rightarrow>
          (case connections_pool s1 of
             [] \<Rightarrow> (Inl (Own (IndexError ''pop from an empty deque'')), k1, s1)
           | _ # _ \<Rightarrow>
               (let local_connection = last (connections_pool s1)
                in (Inr local_connection, k1,
                    s1\<lparr>connections_pool := butlast (connections_pool s1),
                       local_conn := AList.update t (Some local_connection) (local_conn s1)\<rparr>))))"

text \<open>
  Both halves of \<^verbatim>\<open>get_connection\<close> and \<^verbatim>\<open>close_connections\<close> run under the lock, so
  what several threads do to the pool is a sequence of events: a thread enters a
  \<^verbatim>\<open>with\<close> block (acquisition), leaves it normally (release), leaves it by an
  exception, which drops the suspended generator without running its second half, or
  calls \<^verbatim>\<open>close_connections\<close>. \<open>held\<close> lists the suspended generators, each with its
  thread and its \<^verbatim>\<open>local_connection\<close>; \<open>peak\<close> is the largest number of them there
  has been at once; \<open>attempts\<close> counts the calls of \<^verbatim>\<open>engine.get_connection()\<close>, and
  \<open>fills\<close> the acquisitions that found the deque empty and so entered the loop.
\<close>

datatype event = Acquire thread | Release thread conn | Abandon thread conn | Close thread

record pool_state =
  client :: connector
  held :: "(thread \<times> conn) list"
  peak :: nat
  attempts :: nat
  fills :: nat

fun pool_step :: "connects \<Rightarrow> event \<Rightarrow> pool_state \<Rightarrow> pool_state" where
  "pool_step cn (Acquire t) p =
     (let entered =
            (if engine (client p) \<noteq> None \<and> connections_pool (client p) = []
             then Suc (fills p) else fills p)
      in case get_connection_enter_connect cn (attempts p) t (client p) of
           (Inl r, k, s) \<Rightarrow> p\<lparr>client := s, attempts := k, fills := entered\<rparr>
         | (Inr c, k, s) \<Rightarrow>
             p\<lparr>client := s, held := (t, c) # held p,
               peak := max (peak p) (Suc (length (held p))),
               attempts := k, fills := entered\<rparr>)"
| "pool_step cn (Release t c) p =
     (if (t, c) \<in> set (held p)
      then p\<lparr>client := get_connection_exit t c (client p), held := remove1 (t, c) (held p)\<rparr>
      else p)"
| "pool_step cn (Abandon t c) p =
     (if (t, c) \<in> set (held p) then p\<lparr>held := remove1 (t, c) (held p)\<rparr> else p)"
| "pool_step cn (Close t) p = p\<lparr>client := close_connections t (client p)\<rparr>"

definition pool_run :: "connects \<Rightarrow> event list \<Rightarrow> connector \<Rightarrow> pool_state" where
  "pool_run cn evs s =
     foldl (\<lambda>p ev. pool_step cn ev p)
       \<lparr>client = s, held = [], peak = 0, attempts = 0, fills = 0\<rparr> evs"

text \<open>The events of a run in which every block is left normally and nothing is closed.\<close>

fun orderly :: "event \<Rightarrow> bool" where
  "orderly (Acquire t) = True"
| "orderly (Release t c) = True"
| "orderly (Abandon t c) = False"
| "orderly (Close t) = False"

text \<open>The client as \<^verbatim>\<open>_init_connection_pool\<close> leaves it when an engine is configured.\<close>

definition refilled :: "connector \<Rightarrow> connector" where
  "refilled s = (if connections_pool s = [] then fill_pool (nat (pool_size (config s))) s else s)"

text \<open>
  What holds of the pool after any sequence of events on a client with an engine, and
  what holds in addition while every block is left normally and nothing is closed.
\<close>

definition pool_inv :: "connects \<Rightarrow> engine \<Rightarrow> config \<Rightarrow> pool_state \<Rightarrow> bool" where
  "pool_inv cn eng cfg p \<longleftrightarrow>
     engine (client p) = Some eng \<and> config (client p) = cfg \<and>
     created (client p) \<le> nat (pool_size cfg) * fills p \<and>
     ((\<forall>k<attempts p. cn k = None) \<longrightarrow> created (client p) = nat (pool_size cfg) * fills p)"

definition pool_inv_orderly :: "connects \<Rightarrow> config \<Rightarrow> pool_state \<Rightarrow> bool" where
  "pool_inv_orderly cn cfg p \<longleftrightarrow>
     created (client p) = length (connections_pool (client p)) + length (held p) \<and>
     length (held p) \<le> peak p \<and>
     (0 < peak p \<longrightarrow> 0 < created (client p)) \<and>
     ((\<forall>k<attempts p. cn k = None) \<and> peak p \<le> nat (pool_size cfg) \<longrightarrow>
        created (client p) \<le> nat (pool_size cfg))"

text \<open>
  The statements one batch item sends after its own when nothing raises, and the
  statements a whole batch then sends.
\<close>

definition aux_queries :: "config \<Rightarrow> string list" where
  "aux_queries cfg =
     (if with_meta cfg then [''SHOW META''] else []) @
     (if with_status cfg then [''SHOW STATUS''] else [])"

definition batch_queries :: "config \<Rightarrow> (string \<times> string) list \<Rightarrow> string list" where
  "batch_queries cfg b = concat (map (\<lambda>(sub_ql, sub_alias). sub_ql # aux_queries cfg) b)"

text \<open>
  Rows shaped as the introspection statements answer them: every row has the two
  columns, and its name is a plain value, not an exception object. A batch is well
  answered when each of its statements, sent in turn, is
  answered with rows, and each enabled introspection statement with rows of its shape.
\<close>

definition well_shaped :: "string \<Rightarrow> string \<Rightarrow> row list \<Rightarrow> bool" where
  "well_shaped kc vc rows =
     list_all (\<lambda>r. (case map_of r kc of
                       None \<Rightarrow> False
                     | Some (PExn n a) \<Rightarrow> False
                     | Some k \<Rightarrow> True)
                  \<and> map_of r vc \<noteq> None) rows"

fun well_answered ::
  "engine \<Rightarrow> config \<Rightarrow> server \<Rightarrow> string list \<Rightarrow> (string \<times> string) list \<Rightarrow> bool" where
  "well_answered eng cfg srv lg [] = True"
| "well_answered eng cfg srv lg ((sub_ql, sub_alias) # rest) =
     ((case srv lg (plain_query eng) sub_ql of Inl e \<Rightarrow> False | Inr rows \<Rightarrow> True)
      \<and> (if with_meta cfg then
            (case srv (lg @ [sub_ql]) (plain_query eng) ''SHOW META'' of
               Inl e \<Rightarrow> False
             | Inr rows \<Rightarrow> well_shaped ''Variable_name'' ''Value'' rows)
          else True)
      \<and> (if with_status cfg then
            (case srv (lg @ sub_ql # (if with_meta cfg then [''SHOW META''] else []))
                    (plain_query eng) ''SHOW STATUS'' of
               Inl e \<Rightarrow> False
             | Inr rows \<Rightarrow> well_shaped ''Counter'' ''Value'' rows)
          else True)
      \<and> well_answered eng cfg srv (lg @ sub_ql # aux_queries cfg) rest)"

section \<open>Example inputs\<close>

text \<open>
  A daemon that answers the two introspection statements with one row each, rejects
  \<^verbatim>\<open>BAD\<close> with an error code, reports \<^verbatim>\<open>NOOP\<close> as an error without a code, loses the
  connection on \<^verbatim>\<open>GONE\<close>, and answers anything else with one row that numbers the
  statement.
\<close>

definition demo_server :: server where
  "demo_server lg plain q =
     (if q = ''SHOW META'' then
        Inr [[(''Variable_name'', PStr ''total''), (''Value'', PStr ''5'')]]
      else if q = ''SHOW STATUS'' then
        Inr [[(''Counter'', PStr ''uptime''), (''Value'', PStr ''7'')]]
      else if q = ''BAD'' then
        Inl (Exn ''ProgrammingError'' [PInt 1064, PStr ''syntax error'', PNone])
      else if q = ''NOOP'' then
        Inl (Exn ''ProgrammingError'' [PNone, PStr ''nothing to do'', PNone])
      else if q = ''GONE'' then
        Inl (Exn ''OperationalError'' [PInt 2006, PStr ''MySQL server has gone away'', PNone])
      else Inr [[(''id'', PInt (int (length lg)))]])"

text \<open>
  A daemon whose meta rows repeat a name and whose status rows have the counters
  \<^verbatim>\<open>1\<close> and \<^verbatim>\<open>True\<close>.
\<close>

definition demo_server_rows :: server where
  "demo_server_rows lg plain q =
     (if q = ''SHOW META'' then
        Inr [[(''Variable_name'', PStr ''total''), (''Value'', PStr ''5'')],
             [(''Variable_name'', PStr ''time''), (''Value'', PStr ''0.001'')],
             [(''Variable_name'', PStr ''total''), (''Value'', PStr ''7'')]]
      else if q = ''SHOW STATUS'' then
        Inr [[(''Counter'', PInt 1), (''Value'', PStr ''a'')],
             [(''Counter'', PBool True), (''Value'', PStr ''b'')]]
      else Inr [[(''id'', PInt (int (length lg)))]])"

text \<open>Connects that all succeed, and connects of which one raises.\<close>

definition connects_ok :: connects where
  "connects_ok k = None"

definition connects_but :: "nat \<Rightarrow> connects" where
  "connects_but bad k =
     (if k = bad then Some (Exn ''OperationalError'' [PInt 2003, PStr ''cannot connect'', PNone])
      else None)"

definition demo_config :: "string \<Rightarrow> int \<Rightarrow> bool \<Rightarrow> config" where
  "demo_config name n aux =
     \<lparr>SEARCHD_CONNECTION = [(''port'', PInt 9307)], SQL_ENGINE = name,
      POOL_SIZE = Some n, WITH_META = Some aux, WITH_STATUS = Some aux\<rparr>"

definition demo_installed :: "string list" where
  "demo_installed = [''oursql'', ''pymysql'', ''pymysql.cursors'']"

definition demo_client :: "string \<Rightarrow> int \<Rightarrow> bool \<Rightarrow> connector" where
  "demo_client name n aux = projr (SphinxConnector_init demo_installed (demo_config name n aux))"

section \<open>Properties of the driver registry\<close>

lemma registered_acc:
  "map_of (foldl (\<lambda>reg (name, cls). register_engine name cls reg) acc regs) =
   map_of acc ++ map_of (rev regs)"
proof (induction regs arbitrary: acc)
  case Nil
  show ?case by simp
next
  case (Cons r regs)
  obtain n c where r: "r = (n, c)" by (cases r)
  have "map_of (register_engine n c acc) ++ map_of (rev regs) =
        map_of acc ++ ([n \<mapsto> c] ++ map_of (rev regs))"
    by (rule ext) (simp add: register_engine_def AList.update_conv' map_add_def split: option.splits)
  then show ?case using Cons.IH [of "register_engine n c acc"]
    by (simp add: r)
qed

lemma registered_keys:
  "distinct (map fst acc) \<Longrightarrow>
   distinct (map fst (foldl (\<lambda>reg (name, cls). register_engine name cls reg) acc regs)) \<and>
   set (map fst (foldl (\<lambda>reg (name, cls). register_engine name cls reg) acc regs)) =
     set (map fst acc) \<union> fst ` set regs"
proof (induction regs arbitrary: acc)
  case Nil
  then show ?case by simp
next
  case (Cons r regs)
  obtain n c where r: "r = (n, c)" by (cases r)
  have d: "distinct (map fst (register_engine n c acc))"
    using Cons.prems by (simp add: register_engine_def AList.distinct_update)
  have k: "set (map fst (register_engine n c acc)) = insert n (set (map fst acc))"
    using AList.dom_update [of n c acc] by (simp add: register_engine_def)
  show ?case using Cons.IH [OF d] k by (simp add: r)
qed

lemma get_registered: "get_engine_class (registered regs) name = map_of (rev regs) name"
  by (simp add: get_engine_class_def registered_def registered_acc)

lemma driver_registry_registered:
  "driver_registry = registered [(''oursql'', OurSqlEngine), (''mysqldb'', PyMySqlEngine),
     (''pymysql'', PyMySqlEngine), (''mysqldb1'', MySqlDbEngine),
     (''cymysql'', CyMySqlEngine), (''umysqldb'', UMySqlEngine)]"
  by (simp add: driver_registry_def registered_def)

lemma driver_registry_value:
  "driver_registry = [(''oursql'', OurSqlEngine), (''mysqldb'', PyMySqlEngine),
     (''pymysql'', PyMySqlEngine), (''mysqldb1'', MySqlDbEngine),
     (''cymysql'', CyMySqlEngine), (''umysqldb'', UMySqlEngine)]"
  by (simp add: driver_registry_def register_engine_def)

lemma driver_registry_names: "list_engine_names driver_registry =
     [''cymysql'', ''mysqldb'', ''mysqldb1'', ''oursql'', ''pymysql'', ''umysqldb'']"
  unfolding driver_registry_value list_engine_names_def by code_simp

text \<open>
  C7. Registering a name twice leaves the later constructor associated with it. In a
  registry built by any sequence of registrations, a lookup returns the constructor of
  the latest registration of the name, and none exactly when the name was never
  registered; the listing of names is sorted, without repetition, and holds exactly the
  registered names. The registry of the module is built by the six registrations of its
  decorators, \<^verbatim>\<open>'pymysql'\<close> and \<^verbatim>\<open>'mysqldb'\<close> name the same class, and its listing is
  the six names in order.
\<close>

theorem driver_registry_contract:
  "get_engine_class (register_engine name c2 (register_engine name c1 reg)) name = Some c2
   \<and> get_engine_class (registered regs) name = map_of (rev regs) name
   \<and> (get_engine_class (registered regs) name = None) = (name \<notin> fst ` set regs)
   \<and> sorted (list_engine_names (registered regs))
   \<and> distinct (list_engine_names (registered regs))
   \<and> set (list_engine_names (registered regs)) = fst ` set regs
   \<and> driver_registry = registered [(''oursql'', OurSqlEngine), (''mysqldb'', PyMySqlEngine),
        (''pymysql'', PyMySqlEngine), (''mysqldb1'', MySqlDbEngine),
        (''cymysql'', CyMySqlEngine), (''umysqldb'', UMySqlEngine)]
   \<and> get_engine_class driver_registry ''pymysql'' = Some PyMySqlEngine
   \<and> get_engine_class driver_registry ''mysqldb'' = Some PyMySqlEngine
   \<and> list_engine_names driver_registry =
        [''cymysql'', ''mysqldb'', ''mysqldb1'', ''oursql'', ''pymysql'', ''umysqldb'']"
proof -
  have a: "get_engine_class (register_engine name c2 (register_engine name c1 reg)) name = Some c2"
    by (simp add: get_engine_class_def register_engine_def AList.update_conv')
  have b: "(get_engine_class (registered regs) name = None) = (name \<notin> fst ` set regs)"
    by (simp add: get_registered map_of_eq_None_iff)
  have k: "distinct (map fst (registered regs)) \<and> set (map fst (registered regs)) = fst ` set regs"
    using registered_keys [of "[]" regs] by (simp add: registered_def)
  have c: "sorted (list_engine_names (registered regs))"
    by (simp add: list_engine_names_def)
  have d: "distinct (list_engine_names (registered regs))"
    using k by (simp add: list_engine_names_def)
  have e: "set (list_engine_names (registered regs)) = fst ` set regs"
    using k by (simp add: list_engine_names_def)
  have f: "get_engine_class driver_registry ''pymysql'' = Some PyMySqlEngine"
    by (simp add: driver_registry_value get_engine_class_def)
  have g: "get_engine_class driver_registry ''mysqldb'' = Some PyMySqlEngine"
    by (simp add: driver_registry_value get_engine_class_def)
  show ?thesis
    using a b c d e f g get_registered [of regs name] driver_registry_registered driver_registry_names
    by blast
qed

section \<open>The example inputs evaluated\<close>

lemma demo_engine_lookup:
  "get_engine_class driver_registry ''pymysql'' = Some PyMySqlEngine"
  "get_engine_class driver_registry ''oursql'' = Some OurSqlEngine"
  "get_engine_class driver_registry ''postgres'' = None"
  "get_engine_class driver_registry ''cymysql'' = Some CyMySqlEngine"
  by (simp_all add: driver_registry_value get_engine_class_def)

lemma demo_client_simps:
  "engine (demo_client ''pymysql'' n aux) \<noteq> None"
  "config (demo_client ''pymysql'' n aux) = demo_config ''pymysql'' n aux"
  "connections_pool (demo_client ''pymysql'' n aux) = []"
  "created (demo_client ''pymysql'' n aux) = 0"
  by (simp_all add: demo_client_def SphinxConnector_init_def demo_engine_lookup demo_config_def
     engine_init_def demo_installed_def Let_def)

section \<open>Error translation\<close>

lemma raise_abstract:
  "engine_cls eng \<noteq> OurSqlEngine \<Longrightarrow>
   raise_for_exception eng e = Inl (SphinxQLDriverException (PExn (type_name e) (args e)))"
  by (cases "engine_cls eng")
     (simp_all add: raise_for_exception_def AbstractSqlEngine_raise_for_exception_def)

lemma raise_oursql:
  "engine_cls eng = OurSqlEngine \<Longrightarrow> raise_for_exception eng e = OurSqlEngine_raise_for_exception e"
  by (simp add: raise_for_exception_def)

text \<open>
  C3, at a failing input: an \<^verbatim>\<open>OperationalError\<close> whose error code is 2006, not null.
  The oursql variant returns without raising, because it looks at the code of a
  \<^verbatim>\<open>ProgrammingError\<close> only and has no \<^verbatim>\<open>else\<close>; the method it overrides, which the
  other variants use, raises the normalized error for the same exception.
\<close>

theorem oursql_swallows_error_with_code:
  "raise_for_exception \<lparr>engine_cls = OurSqlEngine, options = []\<rparr>
     (Exn ''OperationalError'' [PInt 2006, PStr ''MySQL server has gone away'', PNone]) = Inr ()
   \<and> PInt 2006 \<noteq> PNone
   \<and> raise_for_exception \<lparr>engine_cls = PyMySqlEngine, options = []\<rparr>
     (Exn ''OperationalError'' [PInt 2006, PStr ''MySQL server has gone away'', PNone]) =
     Inl (SphinxQLDriverException
           (PExn ''OperationalError'' [PInt 2006, PStr ''MySQL server has gone away'', PNone]))"
  by (simp add: raise_for_exception_def OurSqlEngine_raise_for_exception_def
      AbstractSqlEngine_raise_for_exception_def)

text \<open>
  Where the translation does what is said of it: every variant other than oursql
  raises the normalized error, wrapping the underlying exception, whatever that
  exception is; the oursql variant, given a \<^verbatim>\<open>ProgrammingError\<close> that carries an error
  code, a message and an extra value, returns without raising when the code is null
  and raises the normalized error carrying the message when it is not.
\<close>

theorem raise_for_exception_by_variant:
  "(engine_cls eng \<noteq> OurSqlEngine \<longrightarrow>
      raise_for_exception eng e = Inl (SphinxQLDriverException (PExn (type_name e) (args e))))
   \<and> (engine_cls eng = OurSqlEngine \<and> type_name e = ''ProgrammingError'' \<and>
      args e = [errno, msg, extra] \<longrightarrow>
      raise_for_exception eng e =
        (if errno = PNone then Inr () else Inl (SphinxQLDriverException msg)))"
  by (simp add: raise_abstract raise_oursql OurSqlEngine_raise_for_exception_def)

theorem raise_for_exception_by_variant_witness:
  "raise_for_exception \<lparr>engine_cls = PyMySqlEngine, options = []\<rparr>
     (Exn ''ProgrammingError'' [PNone, PStr ''nothing to do'', PNone]) =
     Inl (SphinxQLDriverException (PExn ''ProgrammingError'' [PNone, PStr ''nothing to do'', PNone]))
   \<and> raise_for_exception \<lparr>engine_cls = OurSqlEngine, options = []\<rparr>
     (Exn ''ProgrammingError'' [PNone, PStr ''nothing to do'', PNone]) = Inr ()
   \<and> raise_for_exception \<lparr>engine_cls = OurSqlEngine, options = []\<rparr>
     (Exn ''ProgrammingError'' [PInt 1064, PStr ''syntax error'', PNone]) =
     Inl (SphinxQLDriverException (PStr ''syntax error''))"
  using raise_for_exception_by_variant [of "\<lparr>engine_cls = PyMySqlEngine, options = []\<rparr>"
          "Exn ''ProgrammingError'' [PNone, PStr ''nothing to do'', PNone]" PNone PNone PNone]
        raise_for_exception_by_variant [of "\<lparr>engine_cls = OurSqlEngine, options = []\<rparr>"
          "Exn ''ProgrammingError'' [PNone, PStr ''nothing to do'', PNone]"
          PNone "PStr ''nothing to do''" PNone]
        raise_for_exception_by_variant [of "\<lparr>engine_cls = OurSqlEngine, options = []\<rparr>"
          "Exn ''ProgrammingError'' [PInt 1064, PStr ''syntax error'', PNone]"
          "PInt 1064" "PStr ''syntax error''" PNone]
  by simp

section \<open>Acquiring a connection\<close>

lemma fill_pool_eq:
  "fill_pool n s =
     s\<lparr>connections_pool := connections_pool s @ [created s..<created s + n],
       created := created s + n\<rparr>"
proof (induction n arbitrary: s)
  case 0
  show ?case by simp
next
  case (Suc n)
  have "[created s..<created s + Suc n] = created s # [Suc (created s)..<Suc (created s) + n]"
    by (simp add: upt_conv_Cons)
  then show ?case by (simp add: Suc.IH)
qed

lemma init_connection_pool_None:
  "engine s = None \<Longrightarrow> \<exists>msg. init_connection_pool s = Inl (ImproperlyConfigured msg)"
  by (simp add: init_connection_pool_def)

lemma init_connection_pool_Some:
  "engine s = Some eng \<Longrightarrow>
   init_connection_pool s =
     Inr (if connections_pool s = [] then fill_pool (nat (pool_size (config s))) s else s)"
  by (simp add: init_connection_pool_def)

lemma get_connection_enter_None:
  "engine s = None \<Longrightarrow> \<exists>msg. get_connection_enter t s = (Inl (ImproperlyConfigured msg), s)"
  by (simp add: get_connection_enter_def init_connection_pool_def)

lemma get_connection_enter_eq:
  assumes "engine s = Some eng"
  shows "get_connection_enter t s =
     (if connections_pool (refilled s) = []
      then (Inl (IndexError ''pop from an empty deque''), refilled s)
      else (Inr (last (connections_pool (refilled s))),
            (refilled s)\<lparr>connections_pool := butlast (connections_pool (refilled s)),
               local_conn := AList.update t (Some (last (connections_pool (refilled s))))
                               (local_conn (refilled s))\<rparr>))"
proof -
  have i: "init_connection_pool s = Inr (refilled s)"
    using assms by (simp add: init_connection_pool_def refilled_def)
  show ?thesis
    by (cases "connections_pool (refilled s)") (simp_all add: get_connection_enter_def i Let_def)
qed

lemma refilled_fields:
  "engine (refilled s) = engine s" "config (refilled s) = config s"
  "local_conn (refilled s) = local_conn s"
  by (simp_all add: refilled_def fill_pool_eq)

lemma refilled_nonempty:
  "connections_pool s \<noteq> [] \<or> 0 < pool_size (config s) \<Longrightarrow> connections_pool (refilled s) \<noteq> []"
  by (auto simp: refilled_def fill_pool_eq)

text \<open>An acquisition succeeds when an engine is configured and a connection is idle or can be created.\<close>

lemma get_connection_enter_Some:
  assumes "engine s = Some eng" and "connections_pool s \<noteq> [] \<or> 0 < pool_size (config s)"
  shows "\<exists>c s1. get_connection_enter t s = (Inr c, s1) \<and> engine s1 = Some eng \<and>
           config s1 = config s"
  using assms(1) refilled_nonempty [OF assms(2)]
  by (simp add: get_connection_enter_eq [OF assms(1)] refilled_fields)

section \<open>Single queries and unusable engines\<close>

text \<open>
  C8. When an engine is configured, a connection is idle or can be created, and the
  statement is answered with rows, \<^verbatim>\<open>execute\<close> on a bare query string returns exactly
  those rows, as a sequence and not as an alias-keyed mapping; one statement has been
  sent and the connection is back in the pool.
\<close>

theorem execute_single_returns_rows:
  assumes "engine s = Some eng"
    and "connections_pool s \<noteq> [] \<or> 0 < pool_size (config s)"
    and "srv lg (plain_query eng) q = Inr rows"
  shows "\<exists>c s1. get_connection_enter t s = (Inr c, s1) \<and>
           execute srv t (Single q) (s, lg) =
             (Inr (RowSeq rows), get_connection_exit t c s1, lg @ [q])"
proof -
  obtain c s1 where e: "get_connection_enter t s = (Inr c, s1)" "engine s1 = Some eng"
    using get_connection_enter_Some [OF assms(1,2)] by blast
  show ?thesis using e assms(3)
    by (simp add: execute_def execute_query_def engine_execute_def)
qed

theorem execute_single_returns_rows_witness:
  "engine (demo_client ''pymysql'' 2 True) \<noteq> None
   \<and> 0 < pool_size (config (demo_client ''pymysql'' 2 True))
   \<and> execute demo_server 1 (Single ''SELECT 1'') (demo_client ''pymysql'' 2 True, []) =
       (Inr (RowSeq [[(''id'', PInt 0)]]),
        snd (execute demo_server 1 (Single ''SELECT 1'') (demo_client ''pymysql'' 2 True, [])))"
proof -
  obtain eng where e: "engine (demo_client ''pymysql'' 2 True) = Some eng"
    using demo_client_simps(1) by blast
  have p: "0 < pool_size (config (demo_client ''pymysql'' 2 True))"
    by (simp add: demo_client_simps demo_config_def pool_size_def)
  then have a: "connections_pool (demo_client ''pymysql'' 2 True) \<noteq> [] \<or>
           0 < pool_size (config (demo_client ''pymysql'' 2 True))"
    by simp
  have r: "demo_server [] (plain_query eng) ''SELECT 1'' = Inr [[(''id'', PInt 0)]]"
    by (simp add: demo_server_def)
  from execute_single_returns_rows
         [where srv = demo_server and lg = "[]" and q = "''SELECT 1''" and t = 1, OF e a r] e p
  show ?thesis by auto
qed

text \<open>
  C5. When the configured engine name is not registered, or a module that its class
  imports is not installed, the constructor returns a client (it does not raise): one
  without an engine, having created no connection. Every call of \<^verbatim>\<open>execute\<close> on that
  client, the first included, raises the configuration error and changes nothing.
\<close>

theorem unusable_engine_fails_on_execute:
  assumes "get_engine_class driver_registry (SQL_ENGINE cfg) = None \<or>
           (\<exists>cls. get_engine_class driver_registry (SQL_ENGINE cfg) = Some cls \<and>
                  \<not> set (imports_of cls) \<subseteq> set installed)"
  shows "\<exists>s msg. SphinxConnector_init installed cfg = Inr s \<and> engine s = None \<and> created s = 0 \<and>
           connections_pool s = [] \<and>
           execute srv t q (s, lg) = (Inl (ImproperlyConfigured msg), s, lg)"
proof -
  have "\<exists>s. SphinxConnector_init installed cfg = Inr s \<and> engine s = None \<and> created s = 0 \<and>
           connections_pool s = []"
  proof (cases "get_engine_class driver_registry (SQL_ENGINE cfg)")
    case None
    then show ?thesis by (simp add: SphinxConnector_init_def Let_def)
  next
    case (Some cls)
    then have "\<not> set (imports_of cls) \<subseteq> set installed" using assms by auto
    then have "filter (\<lambda>m. m \<notin> set installed) (imports_of cls) \<noteq> []"
      by (auto simp: filter_empty_conv)
    then obtain m ms where "filter (\<lambda>m. m \<notin> set installed) (imports_of cls) = m # ms"
      by (cases "filter (\<lambda>m. m \<notin> set installed) (imports_of cls)") auto
    then show ?thesis using Some
      by (simp add: SphinxConnector_init_def Let_def engine_init_def)
  qed
  then obtain s where s: "SphinxConnector_init installed cfg = Inr s" "engine s = None"
    "created s = 0" "connections_pool s = []" by blast
  obtain msg where "get_connection_enter t s = (Inl (ImproperlyConfigured msg), s)"
    using get_connection_enter_None [OF s(2)] by blast
  then have "execute srv t q (s, lg) = (Inl (ImproperlyConfigured msg), s, lg)"
    by (simp add: execute_def)
  then show ?thesis using s by blast
qed

theorem unusable_engine_fails_on_execute_witness:
  "get_engine_class driver_registry (SQL_ENGINE (demo_config ''postgres'' 2 True)) = None
   \<and> get_engine_class driver_registry (SQL_ENGINE (demo_config ''cymysql'' 2 True)) =
       Some CyMySqlEngine
   \<and> \<not> set (imports_of CyMySqlEngine) \<subseteq> set demo_installed
   \<and> (\<exists>msg. fst (execute demo_server 1 (Single ''SELECT 1'') (demo_client ''postgres'' 2 True, []))
         = Inl (ImproperlyConfigured msg))
   \<and> (\<exists>msg. fst (execute demo_server 1 (Batch []) (demo_client ''cymysql'' 2 True, []))
         = Inl (ImproperlyConfigured msg))"
proof -
  have a: "get_engine_class driver_registry (SQL_ENGINE (demo_config ''postgres'' 2 True)) = None"
    by (simp add: demo_config_def demo_engine_lookup)
  have b: "get_engine_class driver_registry (SQL_ENGINE (demo_config ''cymysql'' 2 True)) =
       Some CyMySqlEngine"
    by (simp add: demo_config_def demo_engine_lookup)
  have c: "\<not> set (imports_of CyMySqlEngine) \<subseteq> set demo_installed"
    by (simp add: demo_installed_def)
  have "\<exists>msg. fst (execute demo_server 1 (Single ''SELECT 1'') (demo_client ''postgres'' 2 True, []))
         = Inl (ImproperlyConfigured msg)"
    using unusable_engine_fails_on_execute [of "demo_config ''postgres'' 2 True" demo_installed
        demo_server 1 "Single ''SELECT 1''" "[]"] a
    by (auto simp: demo_client_def)
  moreover have "\<exists>msg. fst (execute demo_server 1 (Batch []) (demo_client ''cymysql'' 2 True, []))
         = Inl (ImproperlyConfigured msg)"
    using unusable_engine_fails_on_execute [of "demo_config ''cymysql'' 2 True" demo_installed
        demo_server 1 "Batch []" "[]"] b c
    by (auto simp: demo_client_def)
  ultimately show ?thesis using a b c by blast
qed

section \<open>Batches\<close>

lemma pairs_of_Inr_D:
  "pairs_of kc vc rows = Inr ps \<Longrightarrow>
   list_all2 (\<lambda>r kv. map_of r kc = Some (fst kv) \<and> map_of r vc = Some (snd kv)) rows ps"
proof (induction rows arbitrary: ps)
  case Nil
  then show ?case by simp
next
  case (Cons r rows)
  from Cons.prems obtain k v ps' where
    "map_of r kc = Some k" "map_of r vc = Some v" "pairs_of kc vc rows = Inr ps'"
    "ps = (k, v) # ps'"
    by (auto simp: getitem_def split: option.splits sum.splits)
  then show ?case using Cons.IH [of ps'] by simp
qed

text \<open>What a batch item has done when it returns.\<close>

lemma execute_batch_item_Inr:
  assumes "execute_batch_item eng cfg srv lg q = (Inr sub, lg')"
  shows "lg' = lg @ q # aux_queries cfg"
    and "srv lg (plain_query eng) q = Inr (items sub)"
    and "with_meta cfg \<Longrightarrow> \<exists>mrows m. srv (lg @ [q]) (plain_query eng) ''SHOW META'' = Inr mrows \<and>
           normalize_meta mrows = Inr m \<and> meta sub = Some m"
    and "\<not> with_meta cfg \<Longrightarrow> meta sub = None"
    and "with_status cfg \<Longrightarrow> \<exists>srows m.
           srv (lg @ q # (if with_meta cfg then [''SHOW META''] else [])) (plain_query eng)
             ''SHOW STATUS'' = Inr srows \<and>
           normalize_status srows = Inr m \<and> status sub = Some m"
    and "\<not> with_status cfg \<Longrightarrow> status sub = None"
  using assms
  by (auto simp: execute_batch_item_def engine_execute_def aux_queries_def Let_def
      split: sum.splits if_splits prod.splits)

lemma execute_batch_item_query_raises:
  "srv lg (plain_query eng) q = Inl e \<Longrightarrow> execute_batch_item eng cfg srv lg q = (Inl e, lg @ [q])"
  by (simp add: execute_batch_item_def engine_execute_def)

lemma execute_batch_loop_append:
  "execute_batch_loop eng cfg srv total_results lg (pre @ rest) =
     (case execute_batch_loop eng cfg srv total_results lg pre of
        (Inl e, lg1) \<Rightarrow> (Inl e, lg1)
      | (Inr m, lg1) \<Rightarrow> execute_batch_loop eng cfg srv m lg1 rest)"
proof (induction pre arbitrary: total_results lg)
  case Nil
  show ?case by simp
next
  case (Cons p pre)
  obtain q a where p: "p = (q, a)" by (cases p)
  show ?case
    by (simp add: p Cons.IH split: prod.splits sum.splits)
qed

lemma batch_queries_simps:
  "batch_queries cfg [] = []"
  "batch_queries cfg ((q, a) # b) = q # aux_queries cfg @ batch_queries cfg b"
  "batch_queries cfg (b @ b') = batch_queries cfg b @ batch_queries cfg b'"
  by (simp_all add: batch_queries_def)

lemma execute_batch_loop_Cons_Inr:
  assumes "execute_batch_loop eng cfg srv total_results lg ((q, a) # b) = (Inr m, lg')"
  obtains sub where
    "execute_batch_item eng cfg srv lg q = (Inr sub, lg @ q # aux_queries cfg)"
    "execute_batch_loop eng cfg srv (AList.update a sub total_results)
       (lg @ q # aux_queries cfg) b = (Inr m, lg')"
proof -
  from assms obtain sub lg1 where i: "execute_batch_item eng cfg srv lg q = (Inr sub, lg1)"
    and l: "execute_batch_loop eng cfg srv (AList.update a sub total_results) lg1 b = (Inr m, lg')"
    by (auto split: prod.splits sum.splits)
  have "lg1 = lg @ q # aux_queries cfg" using execute_batch_item_Inr(1) [OF i] .
  then show ?thesis using i l that by simp
qed

lemma execute_batch_loop_log:
  "execute_batch_loop eng cfg srv total_results lg b = (Inr m, lg') \<Longrightarrow>
   lg' = lg @ batch_queries cfg b"
proof (induction b arbitrary: total_results lg)
  case Nil
  then show ?case by (simp add: batch_queries_simps)
next
  case (Cons p b)
  obtain q a where p: "p = (q, a)" by (cases p)
  from Cons.prems obtain sub where
    "execute_batch_loop eng cfg srv (AList.update a sub total_results)
       (lg @ q # aux_queries cfg) b = (Inr m, lg')"
    unfolding p by (rule execute_batch_loop_Cons_Inr)
  from Cons.IH [OF this] show ?case by (simp add: p batch_queries_simps)
qed


lemma execute_batch_loop_other:
  "execute_batch_loop eng cfg srv total_results lg b = (Inr m, lg') \<Longrightarrow>
   a \<notin> snd ` set b \<Longrightarrow> map_of m a = map_of total_results a"
proof (induction b arbitrary: total_results lg)
  case Nil
  then show ?case by simp
next
  case (Cons p b)
  obtain q a' where p: "p = (q, a')" by (cases p)
  from Cons.prems(1) obtain sub where
    "execute_batch_loop eng cfg srv (AList.update a' sub total_results)
       (lg @ q # aux_queries cfg) b = (Inr m, lg')"
    unfolding p by (rule execute_batch_loop_Cons_Inr)
  from Cons.IH [OF this] Cons.prems(2) show ?case
    by (simp add: p AList.update_conv')
qed

text \<open>
  The entry of an alias is the sub-result of the last pair that carries it, computed
  when the statements of the pairs before have been sent.
\<close>

lemma execute_batch_loop_entry:
  "execute_batch_loop eng cfg srv total_results lg b = (Inr m, lg') \<Longrightarrow>
   i < length b \<Longrightarrow> snd (b ! i) \<notin> snd ` set (drop (Suc i) b) \<Longrightarrow>
   \<exists>sub. map_of m (snd (b ! i)) = Some sub \<and>
     execute_batch_item eng cfg srv (lg @ batch_queries cfg (take i b)) (fst (b ! i)) =
       (Inr sub, lg @ batch_queries cfg (take (Suc i) b))"
proof (induction b arbitrary: total_results lg i)
  case Nil
  then show ?case by simp
next
  case (Cons p b)
  obtain q a where p: "p = (q, a)" by (cases p)
  from Cons.prems(1) obtain sub where
    item: "execute_batch_item eng cfg srv lg q = (Inr sub, lg @ q # aux_queries cfg)" and
    rest: "execute_batch_loop eng cfg srv (AList.update a sub total_results)
       (lg @ q # aux_queries cfg) b = (Inr m, lg')"
    unfolding p by (rule execute_batch_loop_Cons_Inr)
  show ?case
  proof (cases i)
    case 0
    then have "a \<notin> snd ` set b" using Cons.prems(3) by (simp add: p)
    from execute_batch_loop_other [OF rest this]
    have "map_of m a = Some sub" by (simp add: AList.update_conv')
    then show ?thesis using item by (simp add: 0 p batch_queries_simps)
  next
    case (Suc j)
    then have j: "j < length b" "snd (b ! j) \<notin> snd ` set (drop (Suc j) b)"
      using Cons.prems(2,3) by simp_all
    from Cons.IH [OF rest j] show ?thesis
      by (simp add: Suc p batch_queries_simps)
  qed
qed

lemma demo_client_engine:
  "\<exists>opts. engine (demo_client ''oursql'' n aux) = Some \<lparr>engine_cls = OurSqlEngine, options = opts\<rparr>"
  "\<exists>opts. engine (demo_client ''pymysql'' n aux) = Some \<lparr>engine_cls = PyMySqlEngine, options = opts\<rparr>"
  by (simp_all add: demo_client_def SphinxConnector_init_def demo_engine_lookup demo_config_def
     engine_init_def demo_installed_def Let_def)

lemma demo_client_fields:
  "config (demo_client name n aux) = demo_config name n aux"
  "connections_pool (demo_client name n aux) = []"
  "created (demo_client name n aux) = 0"
  "local_conn (demo_client name n aux) = []"
  by (auto simp: demo_client_def SphinxConnector_init_def Let_def engine_init_def
      split: option.splits list.splits)

lemma demo_config_simps:
  "pool_size (demo_config name n aux) = n"
  "with_meta (demo_config name n aux) = aux"
  "with_status (demo_config name n aux) = aux"
  by (simp_all add: demo_config_def pool_size_def with_meta_def with_status_def)

lemma execute_Batch_eq:
  assumes "engine s = Some eng"
    and "connections_pool s \<noteq> [] \<or> 0 < pool_size (config s)"
  shows "\<exists>c s1. get_connection_enter t s = (Inr c, s1) \<and>
           execute srv t (Batch b) (s, lg) =
             (case execute_batch eng (config s) srv lg b of
                (Inr m, lg1) \<Rightarrow> (Inr (AliasMap m), get_connection_exit t c s1, lg1)
              | (Inl e, lg1) \<Rightarrow>
                  (case raise_for_exception eng e of
                     Inl err \<Rightarrow> (Inl err, s1, lg1)
                   | Inr u \<Rightarrow> (Inr (AliasMap []), get_connection_exit t c s1, lg1)))"
proof -
  obtain c s1 where e: "get_connection_enter t s = (Inr c, s1)" "engine s1 = Some eng"
    "config s1 = config s"
    using get_connection_enter_Some [OF assms(1,2)] by blast
  show ?thesis using e
    by (simp add: execute_def split: prod.splits sum.splits)
qed


lemmas demo_eval =
  execute_batch_def execute_batch_item_def engine_execute_def demo_server_def
  normalize_meta_def normalize_status_def getitem_def dict_of_pairs_def py_eq_def
  demo_config_simps
  demo_client_fields Let_def

lemma demo_available:
  "connections_pool (demo_client name 2 aux) \<noteq> [] \<or> 0 < pool_size (config (demo_client name 2 aux))"
  by (simp add: demo_client_fields demo_config_simps)


lemma py_eq_equiv:
  "py_eq a a" "py_eq a b \<Longrightarrow> py_eq b a" "py_eq a b \<Longrightarrow> py_eq b c \<Longrightarrow> py_eq a c"
  by (simp_all add: py_eq_def)

lemma py_eq_Bool_Int: "py_eq (PBool True) (PInt 1)" "py_eq (PBool False) (PInt 0)"
  by (simp_all add: py_eq_def)

lemma dict_get_simps:
  "dict_get [] k = None"
  "dict_get (p # d) k = (if py_eq (fst p) k then Some (snd p) else dict_get d k)"
  by (simp_all add: dict_get_def)

lemma dict_get_append:
  "dict_get (d @ d') k = (case dict_get d k of Some v \<Rightarrow> Some v | None \<Rightarrow> dict_get d' k)"
  by (induction d) (simp_all add: dict_get_simps)

lemma dict_get_setitem:
  "dict_get (dict_setitem k v d) k' = (if py_eq k k' then Some v else dict_get d k')"
proof (induction d)
  case Nil
  show ?case by (simp add: dict_get_simps)
next
  case (Cons p d)
  show ?case
    using Cons.IH by (auto simp: dict_get_simps py_eq_def)
qed

lemma dict_setitem_keys:
  "set (map (py_key \<circ> fst) (dict_setitem k v d)) = insert (py_key k) (set (map (py_key \<circ> fst) d))"
  by (induction d) (auto simp: py_eq_def)

lemma dict_setitem_distinct:
  "distinct (map (py_key \<circ> fst) d) \<Longrightarrow> distinct (map (py_key \<circ> fst) (dict_setitem k v d))"
proof (induction d)
  case Nil
  show ?case by simp
next
  case (Cons p d)
  show ?case
  proof (cases "py_eq (fst p) k")
    case True
    then show ?thesis using Cons.prems by simp
  next
    case False
    then have "py_key (fst p) \<noteq> py_key k" by (simp add: py_eq_def)
    moreover have "py_key (fst p) \<notin> set (map (py_key \<circ> fst) d)"
      using Cons.prems by simp
    ultimately have "py_key (fst p) \<notin> set (map (py_key \<circ> fst) (dict_setitem k v d))"
      unfolding dict_setitem_keys by simp
    then show ?thesis using False Cons by simp
  qed
qed

lemma dict_fold_get:
  "dict_get (foldl (\<lambda>d (k, v). dict_setitem k v d) acc ps) k' =
     (case dict_get (rev ps) k' of Some v \<Rightarrow> Some v | None \<Rightarrow> dict_get acc k')"
proof (induction ps arbitrary: acc)
  case Nil
  show ?case by (simp add: dict_get_simps)
next
  case (Cons p ps)
  obtain k v where p: "p = (k, v)" by (cases p)
  show ?case
    by (simp add: p Cons.IH dict_get_append dict_get_setitem dict_get_simps split: option.splits)
qed

lemma dict_fold_distinct:
  "distinct (map (py_key \<circ> fst) acc) \<Longrightarrow>
   distinct (map (py_key \<circ> fst) (foldl (\<lambda>d (k, v). dict_setitem k v d) acc ps))"
proof (induction ps arbitrary: acc)
  case Nil
  then show ?case by simp
next
  case (Cons p ps)
  obtain k v where p: "p = (k, v)" by (cases p)
  show ?case using Cons.IH [OF dict_setitem_distinct [OF Cons.prems, of k v]] by (simp add: p)
qed

text \<open>
  The dict built from pairs has no two equal keys, and gives for every key the value
  of the last pair with an equal key.
\<close>

lemma dict_of_pairs_get: "dict_get (dict_of_pairs ps) k = dict_get (rev ps) k"
  by (simp add: dict_of_pairs_def dict_fold_get dict_get_simps split: option.splits)

lemma dict_of_pairs_distinct: "distinct (map (py_key \<circ> fst) (dict_of_pairs ps))"
  using dict_fold_distinct [of "[]" ps] by (simp add: dict_of_pairs_def)

text \<open>Rows that all have the two columns are turned into pairs, one per row, in order.\<close>

lemma well_shaped_pairs_of:
  "well_shaped kc vc rows \<Longrightarrow>
   \<exists>ps. pairs_of kc vc rows = Inr ps \<and>
     list_all2 (\<lambda>r kv. map_of r kc = Some (fst kv) \<and> map_of r vc = Some (snd kv)) rows ps"
proof (induction rows)
  case Nil
  show ?case by simp
next
  case (Cons r rows)
  then obtain ps where ps: "pairs_of kc vc rows = Inr ps"
    "list_all2 (\<lambda>r kv. map_of r kc = Some (fst kv) \<and> map_of r vc = Some (snd kv)) rows ps"
    by (auto simp: well_shaped_def)
  from Cons.prems obtain k v where "map_of r kc = Some k" "map_of r vc = Some v"
    by (auto simp: well_shaped_def split: option.splits)
  then show ?case using ps by (auto simp: getitem_def)
qed

lemma normalize_meta_well_shaped:
  "well_shaped ''Variable_name'' ''Value'' rows \<Longrightarrow>
   \<exists>ps. normalize_meta rows = Inr (dict_of_pairs ps) \<and>
     list_all2 (\<lambda>r kv. map_of r ''Variable_name'' = Some (fst kv) \<and>
                        map_of r ''Value'' = Some (snd kv)) rows ps"
  using well_shaped_pairs_of [of "''Variable_name''" "''Value''" rows]
  by (auto simp: normalize_meta_def)

lemma normalize_status_well_shaped:
  "well_shaped ''Counter'' ''Value'' rows \<Longrightarrow>
   \<exists>ps. normalize_status rows = Inr (dict_of_pairs ps) \<and>
     list_all2 (\<lambda>r kv. map_of r ''Counter'' = Some (fst kv) \<and>
                        map_of r ''Value'' = Some (snd kv)) rows ps"
  using well_shaped_pairs_of [of "''Counter''" "''Value''" rows]
  by (auto simp: normalize_status_def)

lemma execute_batch_item_well_answered:
  assumes "well_answered eng cfg srv lg ((q, a) # rest)"
  shows "\<exists>sub. execute_batch_item eng cfg srv lg q = (Inr sub, lg @ q # aux_queries cfg)"
proof -
  from assms obtain rows where r: "srv lg (plain_query eng) q = Inr rows"
    by (auto split: sum.splits)
  have m: "\<exists>mrows d. srv (lg @ [q]) (plain_query eng) ''SHOW META'' = Inr mrows \<and>
             normalize_meta mrows = Inr d" if "with_meta cfg"
    using assms that normalize_meta_well_shaped
    by (fastforce split: sum.splits)
  have s: "\<exists>srows d. srv (lg @ q # (if with_meta cfg then [''SHOW META''] else []))
               (plain_query eng) ''SHOW STATUS'' = Inr srows \<and>
             normalize_status srows = Inr d" if "with_status cfg"
    using assms that normalize_status_well_shaped
    by (fastforce split: sum.splits)
  show ?thesis
  proof (cases "with_meta cfg")
    case True
    note M = True
    from m [OF True] obtain mrows d where md:
      "srv (lg @ [q]) (plain_query eng) ''SHOW META'' = Inr mrows" "normalize_meta mrows = Inr d"
      by blast
    show ?thesis
    proof (cases "with_status cfg")
      case True
      from s [OF True] M obtain srows d' where sd:
        "srv (lg @ [q, ''SHOW META'']) (plain_query eng) ''SHOW STATUS'' = Inr srows"
        "normalize_status srows = Inr d'"
        by auto
      show ?thesis using r md sd M True
        by (simp add: execute_batch_item_def engine_execute_def aux_queries_def Let_def)
    next
      case False
      show ?thesis using r md M False
        by (simp add: execute_batch_item_def engine_execute_def aux_queries_def Let_def)
    qed
  next
    case False
    note M = False
    show ?thesis
    proof (cases "with_status cfg")
      case True
      from s [OF True] M obtain srows d' where sd:
        "srv (lg @ [q]) (plain_query eng) ''SHOW STATUS'' = Inr srows"
        "normalize_status srows = Inr d'"
        by auto
      show ?thesis using r sd M True
        by (simp add: execute_batch_item_def engine_execute_def aux_queries_def Let_def)
    next
      case False
      show ?thesis using r M False
        by (simp add: execute_batch_item_def engine_execute_def aux_queries_def Let_def)
    qed
  qed
qed

text \<open>A well answered batch runs to its end.\<close>

lemma execute_batch_loop_well_answered:
  "well_answered eng cfg srv lg b \<Longrightarrow>
   \<exists>m. execute_batch_loop eng cfg srv total_results lg b = (Inr m, lg @ batch_queries cfg b)"
proof (induction b arbitrary: total_results lg)
  case Nil
  show ?case by (simp add: batch_queries_simps)
next
  case (Cons p b)
  obtain q a where p: "p = (q, a)" by (cases p)
  from Cons.prems obtain sub where
    i: "execute_batch_item eng cfg srv lg q = (Inr sub, lg @ q # aux_queries cfg)"
    using execute_batch_item_well_answered unfolding p by blast
  have "well_answered eng cfg srv (lg @ q # aux_queries cfg) b"
    using Cons.prems by (simp add: p)
  from Cons.IH [OF this, of "AList.update a sub total_results"] i
  show ?case by (simp add: p batch_queries_simps)
qed

lemma normalize_meta_Inr:
  assumes "normalize_meta rows = Inr d"
  shows "\<exists>ps. list_all2 (\<lambda>r kv. map_of r ''Variable_name'' = Some (fst kv) \<and>
                        map_of r ''Value'' = Some (snd kv)) rows ps \<and>
          distinct (map (py_key \<circ> fst) d) \<and> (\<forall>k. dict_get d k = dict_get (rev ps) k)"
proof -
  from assms obtain ps where ps: "pairs_of ''Variable_name'' ''Value'' rows = Inr ps"
    and d: "d = dict_of_pairs ps"
    by (auto simp: normalize_meta_def split: sum.splits)
  show ?thesis
    using pairs_of_Inr_D [OF ps] dict_of_pairs_distinct [of ps] dict_of_pairs_get [of ps] d
    by blast
qed

lemma normalize_status_Inr:
  assumes "normalize_status rows = Inr d"
  shows "\<exists>ps. list_all2 (\<lambda>r kv. map_of r ''Counter'' = Some (fst kv) \<and>
                        map_of r ''Value'' = Some (snd kv)) rows ps \<and>
          distinct (map (py_key \<circ> fst) d) \<and> (\<forall>k. dict_get d k = dict_get (rev ps) k)"
proof -
  from assms obtain ps where ps: "pairs_of ''Counter'' ''Value'' rows = Inr ps"
    and d: "d = dict_of_pairs ps"
    by (auto simp: normalize_status_def split: sum.splits)
  show ?thesis
    using pairs_of_Inr_D [OF ps] dict_of_pairs_distinct [of ps] dict_of_pairs_get [of ps] d
    by blast
qed

text \<open>
  C9. Let an engine be configured, a connection be idle or creatable, and the batch be
  well answered: each statement is answered with rows, and each enabled introspection
  statement with rows that all have its two columns, the name not being an exception
  object. Then \<^verbatim>\<open>execute\<close> returns a
  mapping, and for the last pair that carries some alias: when the meta option is
  enabled, the meta part of its sub-result is a dict without equal keys that gives, for
  every key, the \<^verbatim>\<open>Value\<close> of the last row answered to \<^verbatim>\<open>SHOW META\<close> (sent right
  after the pair's own statement) whose \<^verbatim>\<open>Variable_name\<close> equals the key, and nothing
  for a key that no row names; otherwise there is no meta part. The same holds for the
  status part, the statement \<^verbatim>\<open>SHOW STATUS\<close> and the columns \<^verbatim>\<open>Counter\<close> and
  \<^verbatim>\<open>Value\<close>. The single row with name \<^verbatim>\<open>total\<close> and value \<^verbatim>\<open>5\<close> gives the dict with
  the one entry \<^verbatim>\<open>total\<close> to \<^verbatim>\<open>5\<close>.
\<close>

theorem batch_meta_and_status:
  assumes "engine s = Some eng"
    and "connections_pool s \<noteq> [] \<or> 0 < pool_size (config s)"
    and "well_answered eng (config s) srv lg b"
    and "i < length b" and "snd (b ! i) \<notin> snd ` set (drop (Suc i) b)"
  shows "(\<exists>m sub. fst (execute srv t (Batch b) (s, lg)) = Inr (AliasMap m)
      \<and> map_of m (snd (b ! i)) = Some sub
      \<and> (if with_meta (config s) then
           \<exists>rows ps d.
             srv (lg @ batch_queries (config s) (take i b) @ [fst (b ! i)]) (plain_query eng)
               ''SHOW META'' = Inr rows
             \<and> list_all2 (\<lambda>r kv. map_of r ''Variable_name'' = Some (fst kv) \<and>
                                  map_of r ''Value'' = Some (snd kv)) rows ps
             \<and> meta sub = Some d \<and> distinct (map (py_key \<circ> fst) d)
             \<and> (\<forall>k. dict_get d k = dict_get (rev ps) k)
         else meta sub = None)
      \<and> (if with_status (config s) then
           \<exists>rows ps d.
             srv (lg @ batch_queries (config s) (take i b) @
                    fst (b ! i) # (if with_meta (config s) then [''SHOW META''] else []))
               (plain_query eng) ''SHOW STATUS'' = Inr rows
             \<and> list_all2 (\<lambda>r kv. map_of r ''Counter'' = Some (fst kv) \<and>
                                  map_of r ''Value'' = Some (snd kv)) rows ps
             \<and> status sub = Some d \<and> distinct (map (py_key \<circ> fst) d)
             \<and> (\<forall>k. dict_get d k = dict_get (rev ps) k)
         else status sub = None))
    \<and> normalize_meta [[(''Variable_name'', PStr ''total''), (''Value'', PStr ''5'')]] =
        Inr [(PStr ''total'', PStr ''5'')]"
proof -
  let ?cfg = "config s"
  from execute_batch_loop_well_answered [OF assms(3), of "[]"] obtain m where
    loop: "execute_batch_loop eng ?cfg srv [] lg b = (Inr m, lg @ batch_queries ?cfg b)"
    by blast
  then have eb: "execute_batch eng ?cfg srv lg b = (Inr m, lg @ batch_queries ?cfg b)"
    by (simp add: execute_batch_def)
  have a: "fst (execute srv t (Batch b) (s, lg)) = Inr (AliasMap m)"
    using execute_Batch_eq [OF assms(1,2), of t srv b lg] eb by auto
  from execute_batch_loop_entry [OF loop assms(4,5)] obtain sub where
    sub: "map_of m (snd (b ! i)) = Some sub" and
    item: "execute_batch_item eng ?cfg srv (lg @ batch_queries ?cfg (take i b))
             (fst (b ! i)) = (Inr sub, lg @ batch_queries ?cfg (take (Suc i) b))"
    by blast
  have me: "if with_meta ?cfg then
           \<exists>rows ps d.
             srv (lg @ batch_queries ?cfg (take i b) @ [fst (b ! i)]) (plain_query eng)
               ''SHOW META'' = Inr rows
             \<and> list_all2 (\<lambda>r kv. map_of r ''Variable_name'' = Some (fst kv) \<and>
                                  map_of r ''Value'' = Some (snd kv)) rows ps
             \<and> meta sub = Some d \<and> distinct (map (py_key \<circ> fst) d)
             \<and> (\<forall>k. dict_get d k = dict_get (rev ps) k)
         else meta sub = None"
  proof (cases "with_meta ?cfg")
    case False
    then show ?thesis using execute_batch_item_Inr(4) [OF item] by simp
  next
    case True
    from execute_batch_item_Inr(3) [OF item True] obtain rows d where
      r: "srv ((lg @ batch_queries ?cfg (take i b)) @ [fst (b ! i)]) (plain_query eng)
            ''SHOW META'' = Inr rows"
      and n: "normalize_meta rows = Inr d" and d: "meta sub = Some d"
      by blast
    show ?thesis using True r d normalize_meta_Inr [OF n] by auto
  qed
  have st: "if with_status ?cfg then
           \<exists>rows ps d.
             srv (lg @ batch_queries ?cfg (take i b) @
                    fst (b ! i) # (if with_meta ?cfg then [''SHOW META''] else []))
               (plain_query eng) ''SHOW STATUS'' = Inr rows
             \<and> list_all2 (\<lambda>r kv. map_of r ''Counter'' = Some (fst kv) \<and>
                                  map_of r ''Value'' = Some (snd kv)) rows ps
             \<and> status sub = Some d \<and> distinct (map (py_key \<circ> fst) d)
             \<and> (\<forall>k. dict_get d k = dict_get (rev ps) k)
         else status sub = None"
  proof (cases "with_status ?cfg")
    case False
    then show ?thesis using execute_batch_item_Inr(6) [OF item] by simp
  next
    case True
    from execute_batch_item_Inr(5) [OF item True] obtain rows d where
      r: "srv ((lg @ batch_queries ?cfg (take i b)) @
                fst (b ! i) # (if with_meta ?cfg then [''SHOW META''] else []))
            (plain_query eng) ''SHOW STATUS'' = Inr rows"
      and n: "normalize_status rows = Inr d" and d: "status sub = Some d"
      by blast
    show ?thesis using True r d normalize_status_Inr [OF n] by auto
  qed
  have ex: "normalize_meta [[(''Variable_name'', PStr ''total''), (''Value'', PStr ''5'')]] =
        Inr [(PStr ''total'', PStr ''5'')]"
    by (simp add: normalize_meta_def getitem_def dict_of_pairs_def)
  show ?thesis using a sub me st ex by blast
qed

lemma demo_server_rows_well_answered:
  "well_answered eng (config (demo_client ''pymysql'' 2 True)) demo_server_rows []
     [(''SELECT 1'', ''a'')]"
  by (simp add: demo_server_rows_def demo_client_fields demo_config_simps well_shaped_def)

theorem batch_meta_and_status_witness:
  "engine (demo_client ''pymysql'' 2 True) \<noteq> None
   \<and> 0 < pool_size (config (demo_client ''pymysql'' 2 True))
   \<and> well_answered \<lparr>engine_cls = PyMySqlEngine, options = []\<rparr>
         (config (demo_client ''pymysql'' 2 True)) demo_server_rows [] [(''SELECT 1'', ''a'')]
   \<and> (0::nat) < length [(''SELECT 1'', ''a'')]
   \<and> (\<exists>m sub dm ds.
        fst (execute demo_server_rows 1 (Batch [(''SELECT 1'', ''a'')])
              (demo_client ''pymysql'' 2 True, [])) = Inr (AliasMap m)
        \<and> map_of m ''a'' = Some sub
        \<and> meta sub = Some dm
        \<and> dict_get dm (PStr ''total'') = Some (PStr ''7'')
        \<and> dict_get dm (PStr ''time'') = Some (PStr ''0.001'')
        \<and> dict_get dm (PStr ''warnings'') = None
        \<and> status sub = Some ds
        \<and> dict_get ds (PInt 1) = Some (PStr ''b'')
        \<and> dict_get ds (PBool True) = Some (PStr ''b''))
   \<and> fst (execute demo_server_rows 1 (Batch [(''SELECT 1'', ''a'')])
          (demo_client ''pymysql'' 2 True, [])) =
       Inr (AliasMap [(''a'', \<lparr>items = [[(''id'', PInt 0)]],
              meta = Some [(PStr ''total'', PStr ''7''), (PStr ''time'', PStr ''0.001'')],
              status = Some [(PInt 1, PStr ''b'')]\<rparr>)])"
proof -
  let ?s = "demo_client ''pymysql'' 2 True"
  obtain opts where e: "engine ?s = Some \<lparr>engine_cls = PyMySqlEngine, options = opts\<rparr>"
    using demo_client_engine(2) by blast
  let ?eng = "\<lparr>engine_cls = PyMySqlEngine, options = opts\<rparr>"
  have i: "(0::nat) < length [(''SELECT 1'', ''a'')]" by simp
  have l: "snd ([(''SELECT 1'', ''a'')] ! 0) \<notin> snd ` set (drop (Suc 0) [(''SELECT 1'', ''a'')])"
    by simp
  from batch_meta_and_status
         [where srv = demo_server_rows and t = 1 and lg = "[]",
          OF e demo_available demo_server_rows_well_answered i l]
  obtain m sub rows ps dm rows' ps' ds where
    x: "fst (execute demo_server_rows 1 (Batch [(''SELECT 1'', ''a'')]) (?s, [])) =
          Inr (AliasMap m)"
      "map_of m ''a'' = Some sub"
    and mrows: "demo_server_rows [''SELECT 1''] (plain_query ?eng) ''SHOW META'' = Inr rows"
      "list_all2 (\<lambda>r kv. map_of r ''Variable_name'' = Some (fst kv) \<and>
                          map_of r ''Value'' = Some (snd kv)) rows ps"
      "meta sub = Some dm" "\<forall>k. dict_get dm k = dict_get (rev ps) k"
    and srows: "demo_server_rows [''SELECT 1'', ''SHOW META''] (plain_query ?eng) ''SHOW STATUS'' =
          Inr rows'"
      "list_all2 (\<lambda>r kv. map_of r ''Counter'' = Some (fst kv) \<and>
                          map_of r ''Value'' = Some (snd kv)) rows' ps'"
      "status sub = Some ds" "\<forall>k. dict_get ds k = dict_get (rev ps') k"
    by (auto simp: demo_client_fields demo_config_simps batch_queries_def)
  have ps: "ps = [(PStr ''total'', PStr ''5''), (PStr ''time'', PStr ''0.001''),
                  (PStr ''total'', PStr ''7'')]"
    using mrows(1,2) by (auto simp: demo_server_rows_def list_all2_Cons1)
  have ps': "ps' = [(PInt 1, PStr ''a''), (PBool True, PStr ''b'')]"
    using srows(1,2) by (auto simp: demo_server_rows_def list_all2_Cons1)
  have g: "dict_get dm (PStr ''total'') = Some (PStr ''7'')"
    "dict_get dm (PStr ''time'') = Some (PStr ''0.001'')"
    "dict_get dm (PStr ''warnings'') = None"
    using mrows(4) by (simp_all add: ps dict_get_simps py_eq_def)
  have g': "dict_get ds (PInt 1) = Some (PStr ''b'')" "dict_get ds (PBool True) = Some (PStr ''b'')"
    using srows(4) by (simp_all add: ps' dict_get_simps py_eq_def)
  have ev: "execute_batch ?eng (config ?s) demo_server_rows [] [(''SELECT 1'', ''a'')] =
      (Inr [(''a'', \<lparr>items = [[(''id'', PInt 0)]],
              meta = Some [(PStr ''total'', PStr ''7''), (PStr ''time'', PStr ''0.001'')],
              status = Some [(PInt 1, PStr ''b'')]\<rparr>)],
       [''SELECT 1'', ''SHOW META'', ''SHOW STATUS''])"
    by (simp add: demo_eval demo_server_rows_def)
  have c: "fst (execute demo_server_rows 1 (Batch [(''SELECT 1'', ''a'')]) (?s, [])) =
       Inr (AliasMap [(''a'', \<lparr>items = [[(''id'', PInt 0)]],
              meta = Some [(PStr ''total'', PStr ''7''), (PStr ''time'', PStr ''0.001'')],
              status = Some [(PInt 1, PStr ''b'')]\<rparr>)])"
    using execute_Batch_eq [OF e demo_available, of 1 demo_server_rows "[(''SELECT 1'', ''a'')]" "[]"]
      ev by auto
  have h: "engine ?s \<noteq> None" "0 < pool_size (config ?s)"
    using e by (simp_all add: demo_client_fields demo_config_simps)
  have w: "well_answered \<lparr>engine_cls = PyMySqlEngine, options = []\<rparr>
      (config ?s) demo_server_rows [] [(''SELECT 1'', ''a'')]"
    by (rule demo_server_rows_well_answered)
  show ?thesis using h w i x mrows(3) srows(3) g g' c by blast
qed

lemma raise_for_exception_normalized:
  assumes "raise_for_exception eng e = Inl err"
    and "engine_cls eng \<noteq> OurSqlEngine \<or> length (args e) = 3"
  shows "\<exists>p. err = SphinxQLDriverException p"
proof (cases "engine_cls eng = OurSqlEngine")
  case False
  then show ?thesis using assms(1) raise_abstract [of eng e] by auto
next
  case True
  then have "length (args e) = 3" using assms(2) by simp
  then obtain errno msg extra where "args e = [errno, msg, extra]"
    by (auto simp: numeral_3_eq_3 length_Suc_conv)
  then show ?thesis using assms(1) True
    by (auto simp: raise_oursql OurSqlEngine_raise_for_exception_def split: if_splits)
qed

lemma execute_batch_fails_at:
  assumes "execute_batch eng cfg srv lg pre = (Inr collected, lg1)"
    and "execute_batch_item eng cfg srv lg1 q = (Inl e, lg2)"
  shows "execute_batch eng cfg srv lg (pre @ (q, a) # post) = (Inl e, lg2)"
  using assms by (simp add: execute_batch_def execute_batch_loop_append)

text \<open>
  C6. Let the pairs before some pair run without raising, let the statement of that
  pair raise, and let the engine's error translation raise for that exception. Then
  \<^verbatim>\<open>execute\<close> raises what the translation raised; the last statement sent is the failing
  one, so no statement of a later pair is sent; and the error is the normalized one
  whenever the engine is not oursql or the exception carries three arguments, as the
  exceptions of oursql do.
\<close>

theorem batch_aborts_at_failing_query:
  assumes "engine s = Some eng"
    and "connections_pool s \<noteq> [] \<or> 0 < pool_size (config s)"
    and "execute_batch eng (config s) srv lg pre = (Inr collected, lg1)"
    and "srv lg1 (plain_query eng) q = Inl e"
    and "raise_for_exception eng e = Inl err"
  shows "fst (execute srv t (Batch (pre @ (q, a) # post)) (s, lg)) = Inl err
    \<and> snd (snd (execute srv t (Batch (pre @ (q, a) # post)) (s, lg))) =
        lg @ batch_queries (config s) pre @ [q]
    \<and> (engine_cls eng \<noteq> OurSqlEngine \<or> length (args e) = 3 \<longrightarrow>
         (\<exists>p. err = SphinxQLDriverException p))"
proof -
  have lg1: "lg1 = lg @ batch_queries (config s) pre"
    using assms(3) execute_batch_loop_log by (simp add: execute_batch_def)
  have "execute_batch_item eng (config s) srv lg1 q = (Inl e, lg1 @ [q])"
    using assms(4) by (rule execute_batch_item_query_raises)
  then have "execute_batch eng (config s) srv lg (pre @ (q, a) # post) = (Inl e, lg1 @ [q])"
    using execute_batch_fails_at [OF assms(3)] by blast
  then have "\<exists>s1. execute srv t (Batch (pre @ (q, a) # post)) (s, lg) = (Inl err, s1, lg1 @ [q])"
    using execute_Batch_eq [OF assms(1,2), of t srv "pre @ (q, a) # post" lg] assms(5) by auto
  then show ?thesis using lg1 raise_for_exception_normalized [OF assms(5)] by auto
qed

text \<open>
  C10. Let the pairs before some pair run without raising and collect their
  sub-results, let the item of that pair raise (in its own statement or in an
  introspection statement), and let the engine's error translation return without
  raising. Then the engine is the oursql variant and \<^verbatim>\<open>execute\<close> returns the empty
  mapping, whatever had been collected; the connection goes back to the pool.
\<close>

theorem swallowed_exception_discards_batch:
  assumes "engine s = Some eng"
    and "connections_pool s \<noteq> [] \<or> 0 < pool_size (config s)"
    and "execute_batch eng (config s) srv lg pre = (Inr collected, lg1)"
    and "execute_batch_item eng (config s) srv lg1 q = (Inl e, lg2)"
    and "raise_for_exception eng e = Inr ()"
  shows "engine_cls eng = OurSqlEngine
    \<and> (\<exists>c s1. get_connection_enter t s = (Inr c, s1) \<and>
          execute srv t (Batch (pre @ (q, a) # post)) (s, lg) =
            (Inr (AliasMap []), get_connection_exit t c s1, lg2))"
proof -
  have o: "engine_cls eng = OurSqlEngine"
    using assms(5) raise_abstract [of eng e] by auto
  have "execute_batch eng (config s) srv lg (pre @ (q, a) # post) = (Inl e, lg2)"
    using execute_batch_fails_at [OF assms(3,4)] .
  then show ?thesis
    using execute_Batch_eq [OF assms(1,2), of t srv "pre @ (q, a) # post" lg] assms(5) o by auto
qed

theorem batch_aborts_at_failing_query_witness:
  "engine (demo_client ''oursql'' 2 False) \<noteq> None
   \<and> 0 < pool_size (config (demo_client ''oursql'' 2 False))
   \<and> demo_server [''SELECT 1''] True ''BAD'' =
       Inl (Exn ''ProgrammingError'' [PInt 1064, PStr ''syntax error'', PNone])
   \<and> fst (execute demo_server 1
          (Batch ([(''SELECT 1'', ''a'')] @ (''BAD'', ''b'') # [(''SELECT 3'', ''c'')]))
          (demo_client ''oursql'' 2 False, [])) =
       Inl (SphinxQLDriverException (PStr ''syntax error''))
   \<and> snd (snd (execute demo_server 1
          (Batch ([(''SELECT 1'', ''a'')] @ (''BAD'', ''b'') # [(''SELECT 3'', ''c'')]))
          (demo_client ''oursql'' 2 False, []))) = [''SELECT 1'', ''BAD'']"
proof -
  obtain opts where e: "engine (demo_client ''oursql'' 2 False) =
      Some \<lparr>engine_cls = OurSqlEngine, options = opts\<rparr>"
    using demo_client_engine(1) by blast
  let ?eng = "\<lparr>engine_cls = OurSqlEngine, options = opts\<rparr>"
  have eb: "execute_batch ?eng (config (demo_client ''oursql'' 2 False)) demo_server []
        [(''SELECT 1'', ''a'')] =
      (Inr [(''a'', \<lparr>items = [[(''id'', PInt 0)]], meta = None, status = None\<rparr>)], [''SELECT 1''])"
    by (simp add: demo_eval)
  have r: "demo_server [''SELECT 1''] (plain_query ?eng) ''BAD'' =
       Inl (Exn ''ProgrammingError'' [PInt 1064, PStr ''syntax error'', PNone])"
    by (simp add: demo_server_def)
  have x: "raise_for_exception ?eng
       (Exn ''ProgrammingError'' [PInt 1064, PStr ''syntax error'', PNone]) =
       Inl (SphinxQLDriverException (PStr ''syntax error''))"
    by (simp add: raise_for_exception_def OurSqlEngine_raise_for_exception_def)
  from batch_aborts_at_failing_query
         [where srv = demo_server and t = 1 and a = "''b''" and post = "[(''SELECT 3'', ''c'')]",
          OF e demo_available eb r x] e
  show ?thesis
    by (simp add: demo_client_fields demo_config_simps batch_queries_def aux_queries_def
        demo_server_def)
qed

theorem swallowed_exception_discards_batch_witness:
  "engine (demo_client ''oursql'' 2 True) \<noteq> None
   \<and> 0 < pool_size (config (demo_client ''oursql'' 2 True))
   \<and> demo_server [''SELECT 1'', ''SHOW META'', ''SHOW STATUS''] True ''NOOP'' =
       Inl (Exn ''ProgrammingError'' [PNone, PStr ''nothing to do'', PNone])
   \<and> fst (execute demo_server 1
          (Batch ([(''SELECT 1'', ''a'')] @ (''NOOP'', ''b'') # [(''SELECT 3'', ''c'')]))
          (demo_client ''oursql'' 2 True, [])) = Inr (AliasMap [])
   \<and> snd (snd (execute demo_server 1
          (Batch ([(''SELECT 1'', ''a'')] @ (''NOOP'', ''b'') # [(''SELECT 3'', ''c'')]))
          (demo_client ''oursql'' 2 True, []))) =
       [''SELECT 1'', ''SHOW META'', ''SHOW STATUS'', ''NOOP'']"
proof -
  obtain opts where e: "engine (demo_client ''oursql'' 2 True) =
      Some \<lparr>engine_cls = OurSqlEngine, options = opts\<rparr>"
    using demo_client_engine(1) by blast
  let ?eng = "\<lparr>engine_cls = OurSqlEngine, options = opts\<rparr>"
  have eb: "execute_batch ?eng (config (demo_client ''oursql'' 2 True)) demo_server []
        [(''SELECT 1'', ''a'')] =
      (Inr [(''a'', \<lparr>items = [[(''id'', PInt 0)]],
                     meta = Some [(PStr ''total'', PStr ''5'')],
                     status = Some [(PStr ''uptime'', PStr ''7'')]\<rparr>)],
       [''SELECT 1'', ''SHOW META'', ''SHOW STATUS''])"
    by (simp add: demo_eval)
  have r: "execute_batch_item ?eng (config (demo_client ''oursql'' 2 True)) demo_server
       [''SELECT 1'', ''SHOW META'', ''SHOW STATUS''] ''NOOP'' =
       (Inl (Exn ''ProgrammingError'' [PNone, PStr ''nothing to do'', PNone]),
        [''SELECT 1'', ''SHOW META'', ''SHOW STATUS'', ''NOOP''])"
    by (simp add: demo_eval)
  have x: "raise_for_exception ?eng
       (Exn ''ProgrammingError'' [PNone, PStr ''nothing to do'', PNone]) = Inr ()"
    by (simp add: raise_for_exception_def OurSqlEngine_raise_for_exception_def)
  from swallowed_exception_discards_batch
         [where srv = demo_server and t = 1 and a = "''b''" and post = "[(''SELECT 3'', ''c'')]",
          OF e demo_available eb r x] e
  show ?thesis
    by (auto simp: demo_client_fields demo_config_simps demo_server_def)
qed

text \<open>
  C2, at a failing input: a client with a pool of two runs a statement that the daemon
  rejects. \<^verbatim>\<open>execute\<close> raises the normalized error; of the two connections created,
  only one is idle afterwards, and the thread's slot still holds the other. After a
  statement that succeeds both connections are idle.
\<close>

theorem execute_error_leaves_connection_checked_out:
  "fst (execute demo_server 1 (Single ''BAD'') (demo_client ''pymysql'' 2 False, [])) =
     Inl (SphinxQLDriverException
           (PExn ''ProgrammingError'' [PInt 1064, PStr ''syntax error'', PNone]))
   \<and> created (fst (snd (execute demo_server 1 (Single ''BAD'')
        (demo_client ''pymysql'' 2 False, [])))) = 2
   \<and> connections_pool (fst (snd (execute demo_server 1 (Single ''BAD'')
        (demo_client ''pymysql'' 2 False, [])))) = [0]
   \<and> local_conn (fst (snd (execute demo_server 1 (Single ''BAD'')
        (demo_client ''pymysql'' 2 False, [])))) = [(1, Some 1)]
   \<and> connections_pool (fst (snd (execute demo_server 1 (Single ''SELECT 1'')
        (demo_client ''pymysql'' 2 False, [])))) = [1, 0]"
proof -
  obtain opts where e: "engine (demo_client ''pymysql'' 2 False) =
      Some \<lparr>engine_cls = PyMySqlEngine, options = opts\<rparr>"
    using demo_client_engine(2) by blast
  have r: "refilled (demo_client ''pymysql'' 2 False) =
      (demo_client ''pymysql'' 2 False)\<lparr>connections_pool := [0, 1], created := 2\<rparr>"
    by (simp add: refilled_def fill_pool_eq demo_client_fields demo_config_simps upt_rec)
  have g: "get_connection_enter 1 (demo_client ''pymysql'' 2 False) =
      (Inr 1, (demo_client ''pymysql'' 2 False)\<lparr>connections_pool := [0], created := 2,
                 local_conn := [(1, Some 1)]\<rparr>)"
    by (simp add: get_connection_enter_eq [OF e] r demo_client_fields)
  show ?thesis using g
    by (simp add: execute_def e execute_query_def engine_execute_def demo_server_def
        raise_for_exception_def AbstractSqlEngine_raise_for_exception_def
        get_connection_exit_def)
qed

section \<open>The pool under acquisitions and releases\<close>

lemma fill_pool_connect_props:
  "fill_pool_connect cn n k s = (r, k', s') \<Longrightarrow>
   \<exists>j. j \<le> n \<and>
       s' = s\<lparr>connections_pool := connections_pool s @ [created s..<created s + j],
              created := created s + j\<rparr> \<and>
       k \<le> k' \<and> (r = None \<longrightarrow> j = n) \<and> ((\<forall>i<k'. cn i = None) \<longrightarrow> r = None)"
proof (induction n arbitrary: k s)
  case 0
  then show ?case by simp
next
  case (Suc n)
  show ?case
  proof (cases "cn k")
    case (Some e)
    then have "r = Some e" "k' = Suc k" "s' = s" using Suc.prems by simp_all
    then show ?thesis using Some by (intro exI [of _ 0]) auto
  next
    case None
    let ?s1 = "s\<lparr>connections_pool := connections_pool s @ [created s],
                  created := Suc (created s)\<rparr>"
    have "fill_pool_connect cn n (Suc k) ?s1 = (r, k', s')"
      using Suc.prems None by simp
    from Suc.IH [OF this] obtain j where j: "j \<le> n"
      "s' = ?s1\<lparr>connections_pool := connections_pool ?s1 @ [created ?s1..<created ?s1 + j],
              created := created ?s1 + j\<rparr>"
      "Suc k \<le> k'" "r = None \<longrightarrow> j = n" "(\<forall>i<k'. cn i = None) \<longrightarrow> r = None"
      by blast
    have "[created s..<created s + Suc j] = created s # [Suc (created s)..<Suc (created s) + j]"
      by (simp add: upt_conv_Cons)
    then show ?thesis using j by (intro exI [of _ "Suc j"]) simp
  qed
qed

text \<open>What an acquisition does to the counts, whether it succeeds or raises.\<close>

lemma get_connection_enter_connect_props:
  assumes "engine s = Some eng"
    and "get_connection_enter_connect cn k t s = (res, k', s')"
  shows "engine s' = Some eng" and "config s' = config s" and "k \<le> k'"
    and "connections_pool s \<noteq> [] \<Longrightarrow> created s' = created s"
    and "connections_pool s = [] \<Longrightarrow> created s \<le> created s' \<and>
           created s' \<le> created s + nat (pool_size (config s))"
    and "connections_pool s = [] \<Longrightarrow> \<forall>i<k'. cn i = None \<Longrightarrow>
           created s' = created s + nat (pool_size (config s))"
    and "length (connections_pool s') + (case res of Inl r \<Rightarrow> 0 | Inr c \<Rightarrow> 1) =
           length (connections_pool s) + (created s' - created s)"
    and "connections_pool s = [] \<Longrightarrow> \<forall>i<k'. cn i = None \<Longrightarrow> 0 < pool_size (config s) \<Longrightarrow>
           \<exists>c. res = Inr c"
proof -
  let ?P = "nat (pool_size (config s))"
  have all: "engine s' = Some eng \<and> config s' = config s \<and> k \<le> k' \<and>
      (connections_pool s \<noteq> [] \<longrightarrow> created s' = created s) \<and>
      (connections_pool s = [] \<longrightarrow> created s \<le> created s' \<and> created s' \<le> created s + ?P) \<and>
      (connections_pool s = [] \<longrightarrow> (\<forall>i<k'. cn i = None) \<longrightarrow> created s' = created s + ?P) \<and>
      length (connections_pool s') + (case res of Inl r \<Rightarrow> 0 | Inr c \<Rightarrow> 1) =
           length (connections_pool s) + (created s' - created s) \<and>
      (connections_pool s = [] \<longrightarrow> (\<forall>i<k'. cn i = None) \<longrightarrow> 0 < pool_size (config s) \<longrightarrow>
           (\<exists>c. res = Inr c))"
  proof (cases "connections_pool s = []")
    case False
    then have "init_connection_pool_connect cn k s = (None, k, s)"
      using assms(1) by (simp add: init_connection_pool_connect_def)
    then show ?thesis using assms False
      by (cases "connections_pool s")
         (auto simp: get_connection_enter_connect_def Let_def)
  next
    case True
    obtain r k1 s1 where f: "fill_pool_connect cn ?P k s = (r, k1, s1)"
      by (cases "fill_pool_connect cn ?P k s") auto
    from fill_pool_connect_props [OF f] obtain j where j: "j \<le> ?P"
      "s1 = s\<lparr>connections_pool := connections_pool s @ [created s..<created s + j],
              created := created s + j\<rparr>"
      "k \<le> k1" "r = None \<longrightarrow> j = ?P" "(\<forall>i<k1. cn i = None) \<longrightarrow> r = None"
      by blast
    show ?thesis
    proof (cases r)
      case (Some e)
      then have "get_connection_enter_connect cn k t s = (Inl (Driver e), k1, s1)"
        using assms(1) True f
        by (simp add: get_connection_enter_connect_def init_connection_pool_connect_def)
      then have "res = Inl (Driver e)" "k' = k1" "s' = s1" using assms(2) by simp_all
      then show ?thesis using j Some True assms(1) by auto
    next
      case None
      then have jP: "j = ?P" using j(4) by simp
      have i: "init_connection_pool_connect cn k s = (None, k1, s1)"
        using assms(1) True f None by (simp add: init_connection_pool_connect_def)
      show ?thesis
      proof (cases "?P = 0")
        case True
        then have "connections_pool s1 = []" using j(2) jP \<open>connections_pool s = []\<close> by simp
        then have "get_connection_enter_connect cn k t s =
            (Inl (Own (IndexError ''pop from an empty deque'')), k1, s1)"
          using i by (simp add: get_connection_enter_connect_def)
        then have "res = Inl (Own (IndexError ''pop from an empty deque''))" "k' = k1" "s' = s1"
          using assms(2) by simp_all
        then show ?thesis using j jP True \<open>connections_pool s = []\<close> assms(1) by auto
      next
        case False
        then have ne: "connections_pool s1 \<noteq> []" using j(2) jP by simp
        then have "get_connection_enter_connect cn k t s =
            (Inr (last (connections_pool s1)), k1,
             s1\<lparr>connections_pool := butlast (connections_pool s1),
                local_conn := AList.update t (Some (last (connections_pool s1))) (local_conn s1)\<rparr>)"
          using i by (cases "connections_pool s1")
                     (simp_all add: get_connection_enter_connect_def Let_def)
        then have "res = Inr (last (connections_pool s1))" "k' = k1"
          "s' = s1\<lparr>connections_pool := butlast (connections_pool s1),
                local_conn := AList.update t (Some (last (connections_pool s1))) (local_conn s1)\<rparr>"
          using assms(2) by simp_all
        then show ?thesis using j jP False \<open>connections_pool s = []\<close> assms(1) by auto
      qed
    qed
  qed
  show "engine s' = Some eng" "config s' = config s" "k \<le> k'"
    "connections_pool s \<noteq> [] \<Longrightarrow> created s' = created s"
    "connections_pool s = [] \<Longrightarrow> created s \<le> created s' \<and>
           created s' \<le> created s + nat (pool_size (config s))"
    "connections_pool s = [] \<Longrightarrow> \<forall>i<k'. cn i = None \<Longrightarrow>
           created s' = created s + nat (pool_size (config s))"
    "length (connections_pool s') + (case res of Inl r \<Rightarrow> 0 | Inr c \<Rightarrow> 1) =
           length (connections_pool s) + (created s' - created s)"
    "connections_pool s = [] \<Longrightarrow> \<forall>i<k'. cn i = None \<Longrightarrow> 0 < pool_size (config s) \<Longrightarrow>
           \<exists>c. res = Inr c"
    using all by blast+
qed

lemma pool_step_attempts: 
  assumes "engine (client p) = Some eng"
  shows "attempts p \<le> attempts (pool_step cn ev p)"
proof (cases ev)
  case (Acquire t)
  obtain res k s where g: "get_connection_enter_connect cn (attempts p) t (client p) = (res, k, s)"
    by (cases "get_connection_enter_connect cn (attempts p) t (client p)") auto
  from get_connection_enter_connect_props(3) [OF assms g] show ?thesis
    using g by (cases res) (simp_all add: Acquire Let_def)
qed simp_all

lemma pool_step_peak: "peak p \<le> peak (pool_step cn ev p)"
  by (cases ev) (auto simp: Let_def split: prod.splits sum.splits)

lemma pool_inv_step:
  assumes "pool_inv cn eng cfg p"
  shows "pool_inv cn eng cfg (pool_step cn ev p)"
proof (cases ev)
  case (Acquire t)
  let ?s = "client p" and ?P = "nat (pool_size cfg)"
  from assms have e: "engine ?s = Some eng" and c: "config ?s = cfg"
    and le: "created ?s \<le> ?P * fills p"
    and eq: "(\<forall>k<attempts p. cn k = None) \<longrightarrow> created ?s = ?P * fills p"
    unfolding pool_inv_def by blast+
  obtain res k s where g: "get_connection_enter_connect cn (attempts p) t ?s = (res, k, s)"
    by (cases "get_connection_enter_connect cn (attempts p) t ?s") auto
  note pr = get_connection_enter_connect_props [OF e g]
  let ?f = "if connections_pool ?s = [] then Suc (fills p) else fills p"
  have st: "client (pool_step cn ev p) = s" "attempts (pool_step cn ev p) = k"
    "fills (pool_step cn ev p) = ?f"
    using g e by (cases res; simp add: Acquire Let_def)+
  have le': "created s \<le> ?P * ?f"
  proof (cases "connections_pool ?s = []")
    case True
    then show ?thesis using pr(5) le c by auto
  next
    case False
    then show ?thesis using pr(4) le by simp
  qed
  have eq': "created s = ?P * ?f" if a: "\<forall>i<k. cn i = None"
  proof -
    have "\<forall>i<attempts p. cn i = None" using a pr(3) by auto
    then have o: "created ?s = ?P * fills p" using eq by simp
    show ?thesis
    proof (cases "connections_pool ?s = []")
      case True
      then show ?thesis using pr(6) [OF True a] o c by simp
    next
      case False
      then show ?thesis using pr(4) o by simp
    qed
  qed
  show ?thesis
    unfolding pool_inv_def st using pr(1,2) c le' eq' by simp
next
  case (Release t c)
  then show ?thesis using assms by (auto simp: pool_inv_def get_connection_exit_def)
next
  case (Abandon t c)
  then show ?thesis using assms by (auto simp: pool_inv_def)
next
  case (Close t)
  then show ?thesis using assms by (auto simp: pool_inv_def close_connections_def)
qed

lemma mult_less_self_zero: "(P::nat) * f < P \<Longrightarrow> P * f = 0"
  by (cases f) auto

lemma pool_inv_orderly_step:
  assumes "pool_inv cn eng cfg p" and "pool_inv_orderly cn cfg p" and "orderly ev"
  shows "pool_inv_orderly cn cfg (pool_step cn ev p)"
proof (cases ev)
  case (Acquire t)
  let ?s = "client p" and ?P = "nat (pool_size cfg)"
  from assms(1) have e: "engine ?s = Some eng" and c: "config ?s = cfg"
    and eq: "(\<forall>k<attempts p. cn k = None) \<longrightarrow> created ?s = ?P * fills p"
    unfolding pool_inv_def by blast+
  from assms(2) have n: "created ?s = length (connections_pool ?s) + length (held p)"
    and h: "length (held p) \<le> peak p"
    and z: "0 < peak p \<longrightarrow> 0 < created ?s"
    and b: "(\<forall>k<attempts p. cn k = None) \<and> peak p \<le> ?P \<longrightarrow> created ?s \<le> ?P"
    unfolding pool_inv_orderly_def by blast+
  obtain res k s where g: "get_connection_enter_connect cn (attempts p) t ?s = (res, k, s)"
    by (cases "get_connection_enter_connect cn (attempts p) t ?s") auto
  note pr = get_connection_enter_connect_props [OF e g]
  have mono: "created ?s \<le> created s"
    using pr(4,5) by (cases "connections_pool ?s = []") auto
  show ?thesis
  proof (cases res)
    case (Inl r)
    then have st: "pool_step cn ev p = p\<lparr>client := s, attempts := k,
        fills := (if connections_pool ?s = [] then Suc (fills p) else fills p)\<rparr>"
      using g e by (simp add: Acquire Let_def)
    have len: "created s = length (connections_pool s) + length (held p)"
      using pr(7) n mono Inl by simp
    have bd: "created s \<le> ?P" if a: "\<forall>i<k. cn i = None" "peak p \<le> ?P"
    proof -
      have o: "\<forall>i<attempts p. cn i = None" using a pr(3) by auto
      show ?thesis
      proof (cases "connections_pool ?s = []")
        case False
        then show ?thesis using pr(4) b o a by simp
      next
        case True
        have "\<not> 0 < pool_size cfg" using pr(8) [OF True a(1)] Inl c by auto
        then have "?P = 0" by simp
        then show ?thesis using pr(5) [OF True] c eq o by simp
      qed
    qed
    have pos: "0 < created s" if "0 < peak p" using z that mono by simp
    show ?thesis unfolding st pool_inv_orderly_def using len h bd pos by simp
  next
    case (Inr conn)
    then have st: "pool_step cn ev p = p\<lparr>client := s, held := (t, conn) # held p,
        peak := max (peak p) (Suc (length (held p))), attempts := k,
        fills := (if connections_pool ?s = [] then Suc (fills p) else fills p)\<rparr>"
      using g e by (simp add: Acquire Let_def)
    have len: "created s = length (connections_pool s) + Suc (length (held p))"
      using pr(7) n mono Inr by simp
    have bd: "created s \<le> ?P"
      if a: "\<forall>i<k. cn i = None" "max (peak p) (Suc (length (held p))) \<le> ?P"
    proof -
      have o: "\<forall>i<attempts p. cn i = None" using a pr(3) by auto
      show ?thesis
      proof (cases "connections_pool ?s = []")
        case False
        then show ?thesis using pr(4) b o a by simp
      next
        case True
        then have "created ?s = length (held p)" using n by simp
        then have "created ?s < ?P" using a(2) by simp
        moreover have "created ?s = ?P * fills p" using eq o by simp
        ultimately have "created ?s = 0" using mult_less_self_zero [of ?P "fills p"] by simp
        then show ?thesis using pr(6) [OF True a(1)] c by simp
      qed
    qed
    have pos: "0 < created s" using len by simp
    show ?thesis unfolding st pool_inv_orderly_def using len h bd pos by simp
  qed
next
  case (Release t c)
  show ?thesis
  proof (cases "(t, c) \<in> set (held p)")
    case False
    then show ?thesis using assms(2) Release by simp
  next
    case True
    have l: "length (remove1 (t, c) (held p)) = length (held p) - 1"
      using True by (simp add: length_remove1)
    have "0 < length (held p)" using True by (rule length_pos_if_in_set)
    then show ?thesis using assms(2) True l Release
      by (auto simp: pool_inv_orderly_def get_connection_exit_def)
  qed
next
  case (Abandon t c)
  then show ?thesis using assms(3) by simp
next
  case (Close t)
  then show ?thesis using assms(3) by simp
qed

lemma pool_inv_foldl:
  "pool_inv cn eng cfg p \<Longrightarrow> pool_inv cn eng cfg (foldl (\<lambda>p ev. pool_step cn ev p) p evs)"
  by (induction evs arbitrary: p) (simp_all add: pool_inv_step)

lemma pool_inv_orderly_foldl:
  "pool_inv cn eng cfg p \<Longrightarrow> pool_inv_orderly cn cfg p \<Longrightarrow> \<forall>ev\<in>set evs. orderly ev \<Longrightarrow>
   pool_inv_orderly cn cfg (foldl (\<lambda>p ev. pool_step cn ev p) p evs)"
  by (induction evs arbitrary: p) (simp_all add: pool_inv_step pool_inv_orderly_step)

lemma SphinxConnector_init_fresh:
  "SphinxConnector_init installed cfg = Inr s \<Longrightarrow>
   config s = cfg \<and> connections_pool s = [] \<and> created s = 0 \<and> local_conn s = []"
  by (auto simp: SphinxConnector_init_def Let_def
      split: option.splits sum.splits error.splits)

text \<open>When no connect raises, an acquisition is what it is in the sections above.\<close>

lemma fill_pool_connect_ok:
  "\<forall>i. cn i = None \<Longrightarrow> fill_pool_connect cn n k s = (None, k + n, fill_pool n s)"
  by (induction n arbitrary: k s) simp_all

lemma get_connection_enter_connect_ok:
  assumes "\<forall>i. cn i = None"
  shows "fst (get_connection_enter_connect cn k t s) =
           (case fst (get_connection_enter t s) of Inl err \<Rightarrow> Inl (Own err) | Inr c \<Rightarrow> Inr c)
       \<and> snd (snd (get_connection_enter_connect cn k t s)) = snd (get_connection_enter t s)"
proof (cases "engine s")
  case None
  then show ?thesis
    by (simp add: get_connection_enter_connect_def init_connection_pool_connect_def
        get_connection_enter_def init_connection_pool_def)
next
  case (Some eng)
  show ?thesis
  proof (cases "connections_pool s = []")
    case False
    then show ?thesis using Some
      by (cases "connections_pool s")
         (simp_all add: get_connection_enter_connect_def init_connection_pool_connect_def
            get_connection_enter_def init_connection_pool_def Let_def)
  next
    case True
    then show ?thesis using Some fill_pool_connect_ok [OF assms]
      by (cases "connections_pool (fill_pool (nat (pool_size (config s))) s)")
         (simp_all add: get_connection_enter_connect_def init_connection_pool_connect_def
            get_connection_enter_def init_connection_pool_def Let_def)
  qed
qed

lemmas demo_pool_eval =
  pool_run_def get_connection_enter_connect_def init_connection_pool_connect_def
  get_connection_exit_def close_connections_def connects_ok_def connects_but_def
  demo_client_fields demo_config_simps eval_nat_numeral Let_def

text \<open>
  A pool of four whose third connect raises: the first acquisition raises and leaves
  two connections, which the next two acquisitions take; the one after finds the deque
  empty and opens four more.
\<close>

lemma partial_fill_example:
  "created (client (pool_run (connects_but 2) [Acquire 1] (demo_client ''pymysql'' 4 False))) = 2
   \<and> held (pool_run (connects_but 2) [Acquire 1] (demo_client ''pymysql'' 4 False)) = []
   \<and> created (client (pool_run (connects_but 2) [Acquire 1, Acquire 1, Acquire 2, Acquire 3]
        (demo_client ''pymysql'' 4 False))) = 6
   \<and> peak (pool_run (connects_but 2) [Acquire 1, Acquire 1, Acquire 2, Acquire 3]
        (demo_client ''pymysql'' 4 False)) = 3
   \<and> fills (pool_run (connects_but 2) [Acquire 1, Acquire 1, Acquire 2, Acquire 3]
        (demo_client ''pymysql'' 4 False)) = 2"
proof -
  obtain opts where e: "engine (demo_client ''pymysql'' 4 False) =
      Some \<lparr>engine_cls = PyMySqlEngine, options = opts\<rparr>"
    using demo_client_engine(2) by blast
  show ?thesis by (simp add: demo_pool_eval e)
qed

text \<open>
  C1, as stated, fails: with a pool size of one and connects that all succeed, a second
  acquisition that arrives while the first connection is still checked out finds the
  idle collection empty and creates another connection.
\<close>

theorem pool_refills_when_exhausted:
  "pool_size (config (demo_client ''pymysql'' 1 False)) = 1
   \<and> created (client (pool_run connects_ok [Acquire 1, Acquire 2]
        (demo_client ''pymysql'' 1 False))) = 2
   \<and> \<not> created (client (pool_run connects_ok [Acquire 1, Acquire 2]
          (demo_client ''pymysql'' 1 False)))
         \<le> nat (pool_size (config (demo_client ''pymysql'' 1 False)))
   \<and> held (pool_run connects_ok [Acquire 1, Acquire 2] (demo_client ''pymysql'' 1 False)) =
       [(2, 1), (1, 0)]
   \<and> connections_pool (client (pool_run connects_ok [Acquire 1]
        (demo_client ''pymysql'' 1 False))) = []"
proof -
  obtain opts where e: "engine (demo_client ''pymysql'' 1 False) =
      Some \<lparr>engine_cls = PyMySqlEngine, options = opts\<rparr>"
    using demo_client_engine(2) by blast
  show ?thesis by (simp add: demo_pool_eval e)
qed

text \<open>
  C1, amended. For a client constructed with a usable engine, whatever the connects do
  and whatever the sequence of acquisitions, releases, blocks left by an exception and
  calls of \<^verbatim>\<open>close_connections\<close>: the constructor creates no connection; connections
  are created only by acquisitions that find the idle collection empty, at most
  POOL_SIZE by each, so the number created is at most POOL_SIZE times the number of
  such acquisitions, and is exactly that when no connect has raised. When no connect
  has raised, every block has been left normally, nothing has been closed, and at most
  POOL_SIZE connections have been checked out at the same time, no more than POOL_SIZE
  connections have been created, however many acquisitions occurred, and exactly
  POOL_SIZE once an acquisition has succeeded.
\<close>

theorem pool_creation_bounded:
  assumes "SphinxConnector_init installed cfg = Inr s" and "engine s \<noteq> None"
  shows "created s = 0
    \<and> created (client (pool_run cn evs s)) \<le> nat (pool_size cfg) * fills (pool_run cn evs s)
    \<and> ((\<forall>k<attempts (pool_run cn evs s). cn k = None) \<longrightarrow>
         created (client (pool_run cn evs s)) = nat (pool_size cfg) * fills (pool_run cn evs s))
    \<and> ((\<forall>k<attempts (pool_run cn evs s). cn k = None) \<and> (\<forall>ev\<in>set evs. orderly ev) \<and>
        peak (pool_run cn evs s) \<le> nat (pool_size cfg) \<longrightarrow>
         created (client (pool_run cn evs s)) \<le> nat (pool_size cfg)
         \<and> (0 < peak (pool_run cn evs s) \<longrightarrow>
              created (client (pool_run cn evs s)) = nat (pool_size cfg)))"
proof -
  let ?p = "pool_run cn evs s" and ?P = "nat (pool_size cfg)"
  let ?start = "\<lparr>client = s, held = [], peak = 0, attempts = 0, fills = 0\<rparr>"
  obtain eng where e: "engine s = Some eng" using assms(2) by blast
  have f: "config s = cfg" "connections_pool s = []" "created s = 0"
    using SphinxConnector_init_fresh [OF assms(1)] by simp_all
  have i0: "pool_inv cn eng cfg ?start" using e f by (simp add: pool_inv_def)
  have o0: "pool_inv_orderly cn cfg ?start" using f by (simp add: pool_inv_orderly_def)
  have inv: "pool_inv cn eng cfg ?p"
    unfolding pool_run_def using i0 by (rule pool_inv_foldl)
  then have a: "created (client ?p) \<le> ?P * fills ?p"
    and b: "(\<forall>k<attempts ?p. cn k = None) \<longrightarrow> created (client ?p) = ?P * fills ?p"
    unfolding pool_inv_def by blast+
  have c: "created (client ?p) \<le> ?P \<and> (0 < peak ?p \<longrightarrow> created (client ?p) = ?P)"
    if ok: "\<forall>k<attempts ?p. cn k = None" and ord: "\<forall>ev\<in>set evs. orderly ev"
      and pk: "peak ?p \<le> ?P"
  proof -
    have "pool_inv_orderly cn cfg ?p"
      unfolding pool_run_def using i0 o0 ord by (rule pool_inv_orderly_foldl)
    then have le: "created (client ?p) \<le> ?P" and pos: "0 < peak ?p \<longrightarrow> 0 < created (client ?p)"
      using ok pk unfolding pool_inv_orderly_def by blast+
    have eq: "created (client ?p) = ?P * fills ?p" using b ok by simp
    have "created (client ?p) = ?P" if "0 < peak ?p"
    proof -
      have "0 < ?P * fills ?p" using pos that eq by simp
      then have "?P \<le> ?P * fills ?p" by (cases "fills ?p") auto
      then have ge: "?P \<le> created (client ?p)" using eq by (simp only:)
      from le ge show ?thesis by (rule order_antisym)
    qed
    then show ?thesis using le by simp
  qed
  show ?thesis using f(3) a b c by blast
qed

theorem pool_creation_bounded_witness:
  "engine (demo_client ''pymysql'' 2 False) \<noteq> None
   \<and> attempts (pool_run (connects_but 7) [Acquire 1, Acquire 2, Release 1 1, Acquire 3]
          (demo_client ''pymysql'' 2 False)) = 2
   \<and> connects_but 7 0 = None \<and> connects_but 7 1 = None
   \<and> orderly (Acquire 1) \<and> orderly (Acquire 2) \<and> orderly (Release 1 1) \<and> orderly (Acquire 3)
   \<and> peak (pool_run (connects_but 7) [Acquire 1, Acquire 2, Release 1 1, Acquire 3]
        (demo_client ''pymysql'' 2 False)) = 2
   \<and> nat (pool_size (demo_config ''pymysql'' 2 False)) = 2
   \<and> created (client (pool_run (connects_but 7) [Acquire 1, Acquire 2, Release 1 1, Acquire 3]
        (demo_client ''pymysql'' 2 False))) = 2
   \<and> fills (pool_run (connects_but 7) [Acquire 1, Acquire 2, Release 1 1, Acquire 3]
        (demo_client ''pymysql'' 2 False)) = 1"
proof -
  let ?evs = "[Acquire 1, Acquire 2, Release 1 1, Acquire 3]"
  let ?p = "pool_run (connects_but 7) ?evs (demo_client ''pymysql'' 2 False)"
  obtain opts where e: "engine (demo_client ''pymysql'' 2 False) =
      Some \<lparr>engine_cls = PyMySqlEngine, options = opts\<rparr>"
    using demo_client_engine(2) by blast
  have i: "SphinxConnector_init demo_installed (demo_config ''pymysql'' 2 False) =
      Inr (demo_client ''pymysql'' 2 False)"
    by (simp add: demo_client_def SphinxConnector_init_def demo_engine_lookup demo_config_def
        engine_init_def demo_installed_def Let_def)
  have n: "engine (demo_client ''pymysql'' 2 False) \<noteq> None" using e by simp
  have pk: "peak ?p = 2" and at: "attempts ?p = 2"
    by (simp_all add: demo_pool_eval e)
  have ok: "\<forall>k<attempts ?p. connects_but 7 k = None"
    unfolding at by (simp add: connects_but_def)
  have ord: "\<forall>ev\<in>set ?evs. orderly ev" by simp
  from pool_creation_bounded [OF i n, of "connects_but 7" ?evs] ok ord pk
  have "created (client ?p) = 2 \<and> fills ?p = 1"
    by (simp add: demo_config_simps)
  then show ?thesis using n at pk by (simp add: demo_config_simps connects_but_def)
qed

end
